theory Spec2Isabelle
  imports Main "HOL-Library.Word"
begin

unbundle bit_operations_syntax

section \<open>Scalars\<close>

text \<open>
  Bytes and 32-bit unsigned integers are words. A C++ \<open>float\<close> is kept as its IEEE-754
  single-precision bit pattern: the decoder only copies floats with \<open>memcpy\<close>, and world
  construction only copies them, compares them with \<open>0.0f\<close> and negates one of them, all of
  which are exact on the bit pattern.
\<close>

type_synonym u8 = "8 word"
type_synonym u32 = "32 word"
type_synonym f32 = "32 word"

text \<open>The literals \<open>0.0f\<close> and \<open>1.0f\<close>.\<close>

definition f32_zero :: f32 where
  "f32_zero = 0"

definition f32_one :: f32 where
  "f32_one = 0x3F800000"

text \<open>
  \<open>v != 0.0f\<close>: false exactly for \<open>+0.0\<close> and \<open>-0.0\<close> (every bit but the sign clear),
  true for every other value, NaN included.
\<close>

definition f32_nonzero :: "f32 \<Rightarrow> bool" where
  "f32_nonzero v = (v AND 0x7FFFFFFF \<noteq> 0)"

text \<open>Unary minus on a float flips the sign bit.\<close>

definition f32_neg :: "f32 \<Rightarrow> f32" where
  "f32_neg v = v XOR 0x80000000"

section \<open>PhysicsScene.h: the decoded data\<close>

text \<open>
  The three enums are filled by \<open>static_cast\<close> from a raw \<open>uint32_t\<close>
  (\<open>CopyEnumField\<close>), and world construction switches on them with a \<open>default\<close> branch, so
  an enum field is the 32-bit value it holds and the enumerators are constants.
\<close>

type_synonym ShapeType = u32
type_synonym PhysicsMode = u32
type_synonym JointType = u32

definition SPHERE :: ShapeType where "SPHERE = 0"
definition BOX :: ShapeType where "BOX = 1"
definition CAPSULE :: ShapeType where "CAPSULE = 2"

definition FOLLOW_BONE :: PhysicsMode where "FOLLOW_BONE = 0"
definition PHYSICS :: PhysicsMode where "PHYSICS = 1"
definition PHYSICS_PLUS_BONE :: PhysicsMode where "PHYSICS_PLUS_BONE = 2"

definition SPRING_6DOF :: JointType where "SPRING_6DOF = 0"

datatype Vector3f = Vector3f (vec_x: f32) (vec_y: f32) (vec_z: f32)

record RigidBody =
  collision_group :: u32
  collision_mask :: u32
  shape_type :: ShapeType
  shape_size :: Vector3f
  shape_position :: Vector3f
  shape_rotation :: Vector3f
  mass :: f32
  move_attenuation :: f32
  rotation_damping :: f32
  repulsion :: f32
  friction_force :: f32
  physics_mode :: PhysicsMode

record Joint =
  joint_type :: JointType
  rigidbody_a_index :: u32
  rigidbody_b_index :: u32
  position :: Vector3f
  rotation :: Vector3f
  position_min :: Vector3f
  position_max :: Vector3f
  rotation_min :: Vector3f
  rotation_max :: Vector3f
  position_spring :: Vector3f
  rotation_spring :: Vector3f

record PhysicsScene =
  scene_rigidbodies :: "RigidBody list"
  scene_joints :: "Joint list"

definition GetRigidBodies :: "PhysicsScene \<Rightarrow> RigidBody list" where
  "GetRigidBodies scene = scene_rigidbodies scene"

definition GetJoints :: "PhysicsScene \<Rightarrow> Joint list" where
  "GetJoints scene = scene_joints scene"

section \<open>Errors\<close>

text \<open>
  Every failure of the source is a \<open>std::invalid_argument\<close> told apart by its message;
  \<open>what\<close> gives the message of each.
\<close>

datatype error =
    EmptyRigidbodyData
  | InvalidRigidbodySize
  | InvalidJointSize
  | TransformSizeMismatch
  | InvalidShape
  | InvalidPhysicsMode
  | InvalidRigidbodyIndex

fun what :: "error \<Rightarrow> string" where
  "what EmptyRigidbodyData = ''Empty rigidbody data''"
| "what InvalidRigidbodySize = ''Invalid rigidbody size''"
| "what InvalidJointSize = ''Invalid joint size''"
| "what TransformSizeMismatch = ''Transform buffer size does not match rigidbody count''"
| "what InvalidShape = ''Invalid shape''"
| "what InvalidPhysicsMode = ''Invalid physics mode''"
| "what InvalidRigidbodyIndex = ''Invalid rigidbody index''"

section \<open>PhysicsScene.cpp: the decoder\<close>

text \<open>
  A buffer \<open>(size, data)\<close> is the list of its \<open>size\<close> bytes. \<open>CopyField\<close> is a
  \<open>memcpy\<close> of four bytes into a 32-bit scalar on a little-endian host: the byte at the
  lowest address is the least significant.
\<close>

definition CopyField :: "u8 list \<Rightarrow> nat \<Rightarrow> 32 word" where
  "CopyField data p = word_rcat [data ! (p + 3), data ! (p + 2), data ! (p + 1), data ! p]"

definition CopyEnumField :: "u8 list \<Rightarrow> nat \<Rightarrow> u32" where
  "CopyEnumField data p = (let enum_value = CopyField data p in enum_value)"

definition CopyVector3fField :: "u8 list \<Rightarrow> nat \<Rightarrow> Vector3f" where
  "CopyVector3fField data ptr =
     Vector3f (CopyField data (ptr + 0)) (CopyField data (ptr + 4)) (CopyField data (ptr + 8))"

definition rigidbody_size :: nat where
  "rigidbody_size = 72"

definition joint_size :: nat where
  "joint_size = 108"

text \<open>The body of the rigid-body loop: the record at \<open>rigidbody_data\<close>.\<close>

definition read_rigidbody :: "u8 list \<Rightarrow> nat \<Rightarrow> RigidBody" where
  "read_rigidbody data rigidbody_data =
     \<lparr> collision_group = CopyField data (rigidbody_data + 0),
       collision_mask = CopyField data (rigidbody_data + 4),
       shape_type = CopyEnumField data (rigidbody_data + 8),
       shape_size = CopyVector3fField data (rigidbody_data + 16),
       shape_position = CopyVector3fField data (rigidbody_data + 28),
       shape_rotation = CopyVector3fField data (rigidbody_data + 40),
       mass = CopyField data (rigidbody_data + 52),
       move_attenuation = CopyField data (rigidbody_data + 56),
       rotation_damping = CopyField data (rigidbody_data + 60),
       repulsion = CopyField data (rigidbody_data + 64),
       friction_force = CopyField data (rigidbody_data + 68),
       physics_mode = CopyEnumField data (rigidbody_data + 12) \<rparr>"

function rigidbody_loop :: "u8 list \<Rightarrow> nat \<Rightarrow> nat \<Rightarrow> RigidBody list \<Rightarrow> RigidBody list" where
  "rigidbody_loop data rigidbody_count i rigidbodies =
     (if i < rigidbody_count
      then rigidbody_loop data rigidbody_count (i + 1)
             (rigidbodies @ [read_rigidbody data (i * rigidbody_size)])
      else rigidbodies)"
  by pat_completeness auto
termination
  by (relation "measure (\<lambda>(data, rigidbody_count, i, rigidbodies). rigidbody_count - i)") auto

declare rigidbody_loop.simps [simp del]

definition DeserializeRigidbodies :: "u8 list \<Rightarrow> error + RigidBody list" where
  "DeserializeRigidbodies data =
     (let size = length data in
      if size = 0 then Inl EmptyRigidbodyData
      else if size mod rigidbody_size \<noteq> 0 then Inl InvalidRigidbodySize
      else let rigidbody_count = size div rigidbody_size
           in Inr (rigidbody_loop data rigidbody_count 0 []))"

text \<open>The body of the joint loop: the record at \<open>joint_data\<close>.\<close>

definition read_joint :: "u8 list \<Rightarrow> nat \<Rightarrow> Joint" where
  "read_joint data joint_data =
     \<lparr> joint_type = CopyEnumField data (joint_data + 0),
       rigidbody_a_index = CopyField data (joint_data + 4),
       rigidbody_b_index = CopyField data (joint_data + 8),
       position = CopyVector3fField data (joint_data + 12),
       rotation = CopyVector3fField data (joint_data + 24),
       position_min = CopyVector3fField data (joint_data + 36),
       position_max = CopyVector3fField data (joint_data + 48),
       rotation_min = CopyVector3fField data (joint_data + 60),
       rotation_max = CopyVector3fField data (joint_data + 72),
       position_spring = CopyVector3fField data (joint_data + 84),
       rotation_spring = CopyVector3fField data (joint_data + 96) \<rparr>"

function joint_loop :: "u8 list \<Rightarrow> nat \<Rightarrow> nat \<Rightarrow> Joint list \<Rightarrow> Joint list" where
  "joint_loop data joint_count i joints =
     (if i < joint_count
      then joint_loop data joint_count (i + 1) (joints @ [read_joint data (i * joint_size)])
      else joints)"
  by pat_completeness auto
termination
  by (relation "measure (\<lambda>(data, joint_count, i, joints). joint_count - i)") auto

declare joint_loop.simps [simp del]

definition DeserializeJoints :: "u8 list \<Rightarrow> error + Joint list" where
  "DeserializeJoints data =
     (let size = length data in
      if size mod joint_size \<noteq> 0 then Inl InvalidJointSize
      else let joint_count = size div joint_size
           in Inr (joint_loop data joint_count 0 []))"

text \<open>
  The constructor of \<open>PhysicsScene\<close>: the member initialisers run in declaration order,
  rigid bodies first, and the first exception leaves the constructor.
\<close>

definition PhysicsScene_new :: "u8 list \<Rightarrow> u8 list \<Rightarrow> error + PhysicsScene" where
  "PhysicsScene_new rigidbodies joints =
     (case DeserializeRigidbodies rigidbodies of
        Inl e \<Rightarrow> Inl e
      | Inr rs \<Rightarrow>
          (case DeserializeJoints joints of
             Inl e \<Rightarrow> Inl e
           | Inr js \<Rightarrow> Inr \<lparr> scene_rigidbodies = rs, scene_joints = js \<rparr>))"

text \<open>
  The unsigned value that four bytes at offset \<open>p\<close> hold in little-endian order, stated
  arithmetically, for comparison with what the decoder copies.
\<close>

definition le_value :: "u8 list \<Rightarrow> nat \<Rightarrow> nat" where
  "le_value data p =
     unat (data ! p) + 2 ^ 8 * unat (data ! (p + 1)) + 2 ^ 16 * unat (data ! (p + 2))
       + 2 ^ 24 * unat (data ! (p + 3))"

definition vec_value :: "Vector3f \<Rightarrow> nat \<times> nat \<times> nat" where
  "vec_value v = (unat (vec_x v), unat (vec_y v), unat (vec_z v))"

definition le_vec3 :: "u8 list \<Rightarrow> nat \<Rightarrow> nat \<times> nat \<times> nat" where
  "le_vec3 data p = (le_value data p, le_value data (p + 4), le_value data (p + 8))"

section \<open>The engine's objects\<close>

text \<open>
  The rigid-body engine is a library outside the repository. Each of its objects that the
  repository's code creates is the data that code puts into it; what the engine would
  compute in floating point (a local inertia tensor, a rotation matrix from Euler angles,
  the inverse and the product of transforms) is kept as the unevaluated call.
\<close>

datatype btMatrix3x3 = btMatrix3x3 (row0: Vector3f) (row1: Vector3f) (row2: Vector3f)

record btTransform =
  m_basis :: btMatrix3x3
  m_origin :: Vector3f

text \<open>
  Modelled from the spec: the engine's \<open>btTransform::setFromOpenGLMatrix\<close> and
  \<open>btTransform::getOpenGLMatrix\<close>, which are not part of the sources. The transform buffer
  holds one "OpenGL-style" column-major 16-element matrix per body: the three columns of the
  rotation at elements 0..2, 4..6 and 8..10, the translation at elements 12..14; writing a
  matrix fills the bottom row with 0, 0, 0, 1.
\<close>

definition setFromOpenGLMatrix :: "f32 list \<Rightarrow> btTransform" where
  "setFromOpenGLMatrix m =
     \<lparr> m_basis = btMatrix3x3 (Vector3f (m ! 0) (m ! 4) (m ! 8))
                             (Vector3f (m ! 1) (m ! 5) (m ! 9))
                             (Vector3f (m ! 2) (m ! 6) (m ! 10)),
       m_origin = Vector3f (m ! 12) (m ! 13) (m ! 14) \<rparr>"

definition getOpenGLMatrix :: "btTransform \<Rightarrow> f32 list" where
  "getOpenGLMatrix t =
     [vec_x (row0 (m_basis t)), vec_x (row1 (m_basis t)), vec_x (row2 (m_basis t)), f32_zero,
      vec_y (row0 (m_basis t)), vec_y (row1 (m_basis t)), vec_y (row2 (m_basis t)), f32_zero,
      vec_z (row0 (m_basis t)), vec_z (row1 (m_basis t)), vec_z (row2 (m_basis t)), f32_zero,
      vec_x (m_origin t), vec_y (m_origin t), vec_z (m_origin t), f32_one]"

datatype btCollisionShape =
    btBoxShape Vector3f
  | btSphereShape f32
  | btCapsuleShape f32 f32

text \<open>
  A local inertia vector is either \<open>btVector3(0, 0, 0)\<close> or what the engine's
  \<open>shape->calculateLocalInertia(mass, local_inertia)\<close> stores.
\<close>

datatype btVector3_inertia =
    zero_inertia
  | calculateLocalInertia btCollisionShape f32

section \<open>PhysicsWorld.cpp: the motion states\<close>

text \<open>
  A motion state holds the index of its rigid body and reaches the transform buffer of its
  world; here the buffer is passed in and, by \<open>setWorldTransform\<close>, returned.
  \<open>&buffer[rigidbody_index * 16]\<close> is the start of the body's 16 floats.
\<close>

datatype btMotionState =
    FollowBoneMotionState (rigidbody_index: nat)
  | PhysicsMotionState (rigidbody_index: nat)
  | PhysicsPlusBoneDynamicMotionState (rigidbody_index: nat)

definition buffer_slot :: "f32 list \<Rightarrow> nat \<Rightarrow> f32 list" where
  "buffer_slot buffer i = take 16 (drop (i * 16) buffer)"

definition buffer_store :: "f32 list \<Rightarrow> nat \<Rightarrow> f32 list \<Rightarrow> f32 list" where
  "buffer_store buffer i m = take (i * 16) buffer @ m @ drop (i * 16 + 16) buffer"

fun getWorldTransform :: "btMotionState \<Rightarrow> f32 list \<Rightarrow> btTransform" where
  "getWorldTransform (FollowBoneMotionState i) buffer = setFromOpenGLMatrix (buffer_slot buffer i)"
| "getWorldTransform (PhysicsMotionState i) buffer = setFromOpenGLMatrix (buffer_slot buffer i)"
| "getWorldTransform (PhysicsPlusBoneDynamicMotionState i) buffer =
     setFromOpenGLMatrix (buffer_slot buffer i)"

fun setWorldTransform :: "btMotionState \<Rightarrow> f32 list \<Rightarrow> btTransform \<Rightarrow> f32 list" where
  "setWorldTransform (FollowBoneMotionState i) buffer world_transform = buffer"
| "setWorldTransform (PhysicsMotionState i) buffer world_transform =
     buffer_store buffer i (getOpenGLMatrix world_transform)"
| "setWorldTransform (PhysicsPlusBoneDynamicMotionState i) buffer world_transform =
     (let original_transform = setFromOpenGLMatrix (buffer_slot buffer i);
          final_transform = world_transform;
          final_transform = final_transform \<lparr> m_origin := m_origin original_transform \<rparr>
      in buffer_store buffer i (getOpenGLMatrix final_transform))"

section \<open>PhysicsWorld.cpp: the collision filter\<close>

text \<open>
  The callback receives pointers to the engine's broadphase proxies and compares them with
  the pointer to the ground's proxy: a pointer is an address, and \<open>proxies\<close> gives the
  proxy at an address.
\<close>

record btBroadphaseProxy =
  m_collisionFilterGroup :: "32 word"
  m_collisionFilterMask :: "32 word"

record PhysicsFilterCallback =
  ground_proxy :: nat

definition needBroadphaseCollision ::
  "PhysicsFilterCallback \<Rightarrow> (nat \<Rightarrow> btBroadphaseProxy) \<Rightarrow> nat \<Rightarrow> nat \<Rightarrow> bool" where
  "needBroadphaseCollision this proxies proxy0 proxy1 =
     (let is_ground = (proxy0 = ground_proxy this \<or> proxy1 = ground_proxy this);
          proxy0_collides =
            (m_collisionFilterGroup (proxies proxy0) AND m_collisionFilterMask (proxies proxy1) \<noteq> 0);
          proxy1_collides =
            (m_collisionFilterMask (proxies proxy0) AND m_collisionFilterGroup (proxies proxy1) \<noteq> 0)
      in (proxy0_collides \<and> proxy1_collides) \<or> is_ground)"

section \<open>PhysicsWorld.cpp: the world\<close>

record btRigidBodyConstructionInfo =
  m_mass :: f32
  m_motionState :: btMotionState
  m_collisionShape :: btCollisionShape
  m_localInertia :: btVector3_inertia
  m_linearDamping :: f32
  m_angularDamping :: f32
  m_restitution :: f32
  m_friction :: f32
  m_additionalDamping :: bool

datatype activation_state = ACTIVE_TAG | DISABLE_DEACTIVATION

text \<open>
  Modelled from the spec: the engine's \<open>btRigidBody\<close>, which is not part of the sources. A
  body keeps what it was constructed from, starts at the transform its motion state returns
  ("the bodies' initial transforms come from the Transform Buffer through their bridges"),
  active and not kinematic.
\<close>

record btRigidBody =
  construction_info :: btRigidBodyConstructionInfo
  m_worldTransform :: btTransform
  activation :: activation_state
  CF_KINEMATIC_OBJECT :: bool

definition btRigidBody_new :: "btRigidBodyConstructionInfo \<Rightarrow> f32 list \<Rightarrow> btRigidBody" where
  "btRigidBody_new rigidbody_info buffer =
     \<lparr> construction_info = rigidbody_info,
       m_worldTransform = getWorldTransform (m_motionState rigidbody_info) buffer,
       activation = ACTIVE_TAG,
       CF_KINEMATIC_OBJECT = False \<rparr>"

record RigidBodyData =
  shape :: btCollisionShape
  motion_state :: btMotionState
  rigidbody :: btRigidBody

text \<open>
  The world-space frame of a joint, \<open>setOrigin(position)\<close> and
  \<open>setBasis(setEulerZYX(rotation))\<close> on the identity, and the frame of the joint in the
  local space of a body, \<open>body.getWorldTransform().inverse() *= transform\<close>.
\<close>

datatype joint_transform = joint_transform (origin: Vector3f) (setEulerZYX: Vector3f)

datatype local_frame = inverse_times btTransform joint_transform

text \<open>
  Modelled from the spec: the engine's \<open>btGeneric6DofSpringConstraint\<close>, which is not part
  of the sources. It joins two bodies (here their indices in the world's list) by two local
  frames, with linear and angular limits and, for each of its six axes, a spring that a new
  constraint leaves disabled ("zero means spring left disabled") with stiffness 0.
\<close>

record btGeneric6DofSpringConstraint =
  rbA :: nat
  rbB :: nat
  frameInA :: local_frame
  frameInB :: local_frame
  useLinearReferenceFrameA :: bool
  linearLowerLimit :: Vector3f
  linearUpperLimit :: Vector3f
  angularLowerLimit :: Vector3f
  angularUpperLimit :: Vector3f
  m_springEnabled :: "bool list"
  m_springStiffness :: "f32 list"

definition btGeneric6DofSpringConstraint_new ::
  "nat \<Rightarrow> nat \<Rightarrow> local_frame \<Rightarrow> local_frame \<Rightarrow> bool \<Rightarrow> btGeneric6DofSpringConstraint" where
  "btGeneric6DofSpringConstraint_new a b frame_a frame_b use_a =
     \<lparr> rbA = a, rbB = b, frameInA = frame_a, frameInB = frame_b,
       useLinearReferenceFrameA = use_a,
       linearLowerLimit = Vector3f f32_zero f32_zero f32_zero,
       linearUpperLimit = Vector3f f32_zero f32_zero f32_zero,
       angularLowerLimit = Vector3f f32_zero f32_zero f32_zero,
       angularUpperLimit = Vector3f f32_zero f32_zero f32_zero,
       m_springEnabled = replicate 6 False,
       m_springStiffness = replicate 6 f32_zero \<rparr>"

definition enableSpring ::
  "nat \<Rightarrow> bool \<Rightarrow> btGeneric6DofSpringConstraint \<Rightarrow> btGeneric6DofSpringConstraint" where
  "enableSpring index onOff c = c \<lparr> m_springEnabled := (m_springEnabled c) [index := onOff] \<rparr>"

definition setStiffness ::
  "nat \<Rightarrow> f32 \<Rightarrow> btGeneric6DofSpringConstraint \<Rightarrow> btGeneric6DofSpringConstraint" where
  "setStiffness index stiffness c =
     c \<lparr> m_springStiffness := (m_springStiffness c) [index := stiffness] \<rparr>"

text \<open>
  The calls the world makes on the engine's simulation (\<open>this->world\<close>), in order. A body is
  named by where the world keeps it: the ground, or an index into \<open>rigidbodies\<close>; a
  constraint by its index into \<open>joints\<close>.
\<close>

datatype body_ref = ground_rigidbody | scene_rigidbody nat

text \<open>
  \<open>Step\<close> takes \<open>max_sub_steps\<close> as a \<open>float\<close> and passes it to the engine's \<open>int\<close>
  parameter: the engine receives the converted value, kept here as the unevaluated
  conversion.
\<close>

datatype float_to_int = float_to_int f32

datatype world_call =
    setGravity
  | addRigidBody body_ref
  | setOverlapFilterCallback
  | addConstraint nat bool
  | removeRigidBody body_ref
  | removeConstraint nat
  | stepSimulation f32 float_to_int f32

record PhysicsWorld =
  world :: "world_call list"
  rigidbodies :: "RigidBodyData list"
  joints :: "btGeneric6DofSpringConstraint list"
  transform_buffer :: "f32 list"

text \<open>The first \<open>switch\<close> of the rigid-body loop.\<close>

definition make_shape :: "RigidBody \<Rightarrow> error + btCollisionShape" where
  "make_shape rigidbody_item =
     (if shape_type rigidbody_item = BOX then
        Inr (btBoxShape (Vector3f (vec_x (shape_size rigidbody_item))
                                  (vec_y (shape_size rigidbody_item))
                                  (vec_z (shape_size rigidbody_item))))
      else if shape_type rigidbody_item = SPHERE then
        Inr (btSphereShape (vec_x (shape_size rigidbody_item)))
      else if shape_type rigidbody_item = CAPSULE then
        Inr (btCapsuleShape (vec_x (shape_size rigidbody_item)) (vec_y (shape_size rigidbody_item)))
      else Inl InvalidShape)"

text \<open>The second \<open>switch\<close> of the rigid-body loop.\<close>

definition make_motion_state :: "RigidBody \<Rightarrow> nat \<Rightarrow> error + btMotionState" where
  "make_motion_state rigidbody_item index =
     (if physics_mode rigidbody_item = FOLLOW_BONE then Inr (FollowBoneMotionState index)
      else if physics_mode rigidbody_item = PHYSICS then Inr (PhysicsMotionState index)
      else if physics_mode rigidbody_item = PHYSICS_PLUS_BONE then
        Inr (PhysicsPlusBoneDynamicMotionState index)
      else Inl InvalidPhysicsMode)"

text \<open>
  One pass of the rigid-body loop up to \<open>addRigidBody\<close> and the two calls after it: the
  shape, the motion state and the engine body of \<open>rigidbody_item\<close>.
\<close>

definition make_rigidbody :: "f32 list \<Rightarrow> nat \<Rightarrow> RigidBody \<Rightarrow> error + RigidBodyData" where
  "make_rigidbody buffer index rigidbody_item =
     (case make_shape rigidbody_item of
        Inl e \<Rightarrow> Inl e
      | Inr shp \<Rightarrow>
          (let mass_local = (if physics_mode rigidbody_item = FOLLOW_BONE then f32_zero
                             else mass rigidbody_item);
               local_inertia = (if f32_nonzero mass_local
                                then calculateLocalInertia shp mass_local
                                else zero_inertia)
           in case make_motion_state rigidbody_item index of
                Inl e \<Rightarrow> Inl e
              | Inr ms \<Rightarrow>
                  (let rigidbody_info =
                         \<lparr> m_mass = mass rigidbody_item,
                           m_motionState = ms,
                           m_collisionShape = shp,
                           m_localInertia = local_inertia,
                           m_linearDamping = move_attenuation rigidbody_item,
                           m_angularDamping = rotation_damping rigidbody_item,
                           m_restitution = repulsion rigidbody_item,
                           m_friction = friction_force rigidbody_item,
                           m_additionalDamping = True \<rparr>;
                       body = btRigidBody_new rigidbody_info buffer;
                       body = body \<lparr> activation := DISABLE_DEACTIVATION \<rparr>;
                       body = (if physics_mode rigidbody_item = FOLLOW_BONE
                               then body \<lparr> CF_KINEMATIC_OBJECT := True \<rparr> else body)
                   in Inr \<lparr> shape = shp, motion_state = ms, rigidbody = body \<rparr>)))"

text \<open>
  The rigid-body loop. \<open>rigidbody_count\<close> is the loop's own counter; the new body is added
  to the simulation and pushed at the end of \<open>rigidbodies\<close>. Both \<open>throw\<close> statements of
  the loop body come before its \<open>addRigidBody\<close>: an exception leaves the loop with the
  error and with the members as they are at the start of that pass.
\<close>

fun add_rigidbodies ::
  "PhysicsWorld \<Rightarrow> nat \<Rightarrow> RigidBody list \<Rightarrow> (error \<times> PhysicsWorld) + PhysicsWorld" where
  "add_rigidbodies this rigidbody_count [] = Inr this"
| "add_rigidbodies this rigidbody_count (rigidbody_item # rest) =
     (case make_rigidbody (transform_buffer this) rigidbody_count rigidbody_item of
        Inl e \<Rightarrow> Inl (e, this)
      | Inr rigidbody_data \<Rightarrow>
          add_rigidbodies
            (this \<lparr> world := world this @ [addRigidBody (scene_rigidbody (length (rigidbodies this)))],
                    rigidbodies := rigidbodies this @ [rigidbody_data] \<rparr>)
            (rigidbody_count + 1) rest)"

text \<open>The six \<open>if\<close> statements on the spring fields of a joint.\<close>

definition set_springs :: "Joint \<Rightarrow> btGeneric6DofSpringConstraint \<Rightarrow> btGeneric6DofSpringConstraint" where
  "set_springs joint_item c =
     (let c = (if f32_nonzero (vec_x (position_spring joint_item))
               then setStiffness 0 (vec_x (position_spring joint_item)) (enableSpring 0 True c)
               else c);
          c = (if f32_nonzero (vec_y (position_spring joint_item))
               then setStiffness 1 (vec_y (position_spring joint_item)) (enableSpring 1 True c)
               else c);
          c = (if f32_nonzero (vec_z (position_spring joint_item))
               then setStiffness 2 (f32_neg (vec_z (position_spring joint_item)))
                      (enableSpring 2 True c)
               else c);
          c = (if f32_nonzero (vec_x (rotation_spring joint_item))
               then setStiffness 3 (vec_x (rotation_spring joint_item)) (enableSpring 3 True c)
               else c);
          c = (if f32_nonzero (vec_y (rotation_spring joint_item))
               then setStiffness 4 (vec_y (rotation_spring joint_item)) (enableSpring 4 True c)
               else c);
          c = (if f32_nonzero (vec_z (rotation_spring joint_item))
               then setStiffness 5 (vec_z (rotation_spring joint_item)) (enableSpring 5 True c)
               else c)
      in c)"

text \<open>One pass of the joint loop up to \<open>addConstraint\<close>: the constraint of \<open>joint_item\<close>.\<close>

definition make_constraint ::
  "RigidBodyData list \<Rightarrow> Joint \<Rightarrow> error + btGeneric6DofSpringConstraint" where
  "make_constraint bodies joint_item =
     (let transform = joint_transform (position joint_item) (rotation joint_item);
          a_index = unat (rigidbody_a_index joint_item)
      in if a_index \<ge> length bodies then Inl InvalidRigidbodyIndex
         else let rigidbody_a = bodies ! a_index;
                  b_index = unat (rigidbody_b_index joint_item)
              in if b_index \<ge> length bodies then Inl InvalidRigidbodyIndex
                 else let rigidbody_b = bodies ! b_index;
                          inverse_a = inverse_times (m_worldTransform (rigidbody rigidbody_a)) transform;
                          inverse_b = inverse_times (m_worldTransform (rigidbody rigidbody_b)) transform;
                          c = btGeneric6DofSpringConstraint_new a_index b_index inverse_a inverse_b True;
                          c = c \<lparr> linearLowerLimit := position_min joint_item \<rparr>;
                          c = c \<lparr> linearUpperLimit := position_max joint_item \<rparr>;
                          c = c \<lparr> angularLowerLimit := rotation_min joint_item \<rparr>;
                          c = c \<lparr> angularUpperLimit := rotation_max joint_item \<rparr>
                      in Inr (set_springs joint_item c))"

text \<open>
  The joint loop. Both \<open>throw\<close> statements of the loop body come before its
  \<open>addConstraint\<close>: an exception leaves the loop with the error and with the members as
  they are at the start of that pass.
\<close>

fun add_joints :: "PhysicsWorld \<Rightarrow> Joint list \<Rightarrow> (error \<times> PhysicsWorld) + PhysicsWorld" where
  "add_joints this [] = Inr this"
| "add_joints this (joint_item # rest) =
     (case make_constraint (rigidbodies this) joint_item of
        Inl e \<Rightarrow> Inl (e, this)
      | Inr c \<Rightarrow>
          add_joints
            (this \<lparr> world := world this @ [addConstraint (length (joints this)) True],
                    joints := joints this @ [c] \<rparr>)
            rest)"

text \<open>
  The constructor. \<open>(initial_transform_count, initial_transform)\<close> is the list of the
  floats it points to. The result is the constructed world, or, when a \<open>throw\<close> statement
  is reached, the error together with the members as they are at that statement: \<open>world\<close>
  then holds every call made on the simulation so far. The constructor has no handler, and
  the destructor does not run for an object whose constructor threw, so no further call is
  made on the simulation before the members are destroyed.
\<close>

definition PhysicsWorld_new ::
  "PhysicsScene \<Rightarrow> f32 list \<Rightarrow> (error \<times> PhysicsWorld) + PhysicsWorld" where
  "PhysicsWorld_new scene initial_transform =
     (let this = \<lparr> world = [setGravity, addRigidBody ground_rigidbody, setOverlapFilterCallback],
                   rigidbodies = [], joints = [], transform_buffer = initial_transform \<rparr>;
          bodies = GetRigidBodies scene
      in if length (transform_buffer this) \<noteq> length bodies * 16
         then Inl (TransformSizeMismatch, this)
         else case add_rigidbodies this 0 bodies of
                Inl failure \<Rightarrow> Inl failure
              | Inr this \<Rightarrow> add_joints this (GetJoints scene))"

text \<open>The destructor: its two loops, then the destructor itself.\<close>

fun remove_joints :: "world_call list \<Rightarrow> nat \<Rightarrow> btGeneric6DofSpringConstraint list \<Rightarrow> world_call list" where
  "remove_joints calls i [] = calls"
| "remove_joints calls i (joint # rest) = remove_joints (calls @ [removeConstraint i]) (i + 1) rest"

fun remove_rigidbodies :: "world_call list \<Rightarrow> nat \<Rightarrow> RigidBodyData list \<Rightarrow> world_call list" where
  "remove_rigidbodies calls i [] = calls"
| "remove_rigidbodies calls i (rb # rest) =
     remove_rigidbodies (calls @ [removeRigidBody (scene_rigidbody i)]) (i + 1) rest"

definition PhysicsWorld_destroy :: "PhysicsWorld \<Rightarrow> world_call list" where
  "PhysicsWorld_destroy this =
     (let calls = [removeRigidBody ground_rigidbody];
          calls = remove_joints calls 0 (joints this);
          calls = remove_rigidbodies calls 0 (rigidbodies this)
      in calls)"

text \<open>
  Modelled from the spec: the engine's \<open>stepSimulation\<close>, which is not part of the sources.
  The engine reaches the transform buffer only through the motion states of the bodies
  added to it ("read()/write() calls happen strictly inside a Step() call, ordered by the
  engine's internal sub-stepping", any number of times per body), so its effect on the world
  is that of the sequence of motion-state calls it makes, given here as \<open>engine\<close>.
\<close>

datatype motion_state_call =
    read_call nat
  | write_call nat btTransform

fun motion_state_callback :: "PhysicsWorld \<Rightarrow> motion_state_call \<Rightarrow> PhysicsWorld" where
  "motion_state_callback this (read_call k) = this"
| "motion_state_callback this (write_call k world_transform) =
     (if k < length (rigidbodies this)
      then this \<lparr> transform_buffer :=
                    setWorldTransform (motion_state (rigidbodies this ! k)) (transform_buffer this)
                      world_transform \<rparr>
      else this)"

definition Step :: "motion_state_call list \<Rightarrow> f32 \<Rightarrow> f32 \<Rightarrow> f32 \<Rightarrow> PhysicsWorld \<Rightarrow> PhysicsWorld" where
  "Step engine delta_time max_sub_steps fixed_time_step this =
     foldl motion_state_callback
       (this \<lparr> world := world this
                 @ [stepSimulation delta_time (float_to_int max_sub_steps) fixed_time_step] \<rparr>)
       engine"

section \<open>Notions of the specification\<close>

text \<open>
  The spring field of a joint that belongs to a constraint axis: axes 0, 1, 2 are linear
  X, Y, Z (\<open>position_spring\<close>), axes 3, 4, 5 angular X, Y, Z (\<open>rotation_spring\<close>).
\<close>

definition spring_field :: "Joint \<Rightarrow> nat \<Rightarrow> f32" where
  "spring_field j axis =
     [vec_x (position_spring j), vec_y (position_spring j), vec_z (position_spring j),
      vec_x (rotation_spring j), vec_y (rotation_spring j), vec_z (rotation_spring j)] ! axis"

text \<open>
  Orders on the calls of a teardown: \<open>all_before P Q calls\<close> says that every call with
  \<open>P\<close> comes before every call with \<open>Q\<close>, that is, none with \<open>P\<close> follows one with \<open>Q\<close>.
\<close>

fun is_removeConstraint :: "world_call \<Rightarrow> bool" where
  "is_removeConstraint (removeConstraint k) = True"
| "is_removeConstraint c = False"

fun is_removeRigidBody :: "world_call \<Rightarrow> bool" where
  "is_removeRigidBody (removeRigidBody b) = True"
| "is_removeRigidBody c = False"

fun removes_ground :: "world_call \<Rightarrow> bool" where
  "removes_ground (removeRigidBody ground_rigidbody) = True"
| "removes_ground c = False"

fun removes_scene_rigidbody :: "world_call \<Rightarrow> bool" where
  "removes_scene_rigidbody (removeRigidBody (scene_rigidbody k)) = True"
| "removes_scene_rigidbody c = False"

text \<open>
  The rigid bodies and the constraints that a sequence of calls leaves added to the
  simulation: those added and not removed since.
\<close>

fun bodies_after :: "body_ref list \<Rightarrow> world_call \<Rightarrow> body_ref list" where
  "bodies_after bs (addRigidBody b) = bs @ [b]"
| "bodies_after bs (removeRigidBody b) = removeAll b bs"
| "bodies_after bs c = bs"

fun constraints_after :: "nat list \<Rightarrow> world_call \<Rightarrow> nat list" where
  "constraints_after ks (addConstraint k disable_collisions) = ks @ [k]"
| "constraints_after ks (removeConstraint k) = removeAll k ks"
| "constraints_after ks c = ks"

definition bodies_in_simulation :: "world_call list \<Rightarrow> body_ref list" where
  "bodies_in_simulation calls = foldl bodies_after [] calls"

definition constraints_in_simulation :: "world_call list \<Rightarrow> nat list" where
  "constraints_in_simulation calls = foldl constraints_after [] calls"

fun all_before :: "('a \<Rightarrow> bool) \<Rightarrow> ('a \<Rightarrow> bool) \<Rightarrow> 'a list \<Rightarrow> bool" where
  "all_before P Q [] = True"
| "all_before P Q (c # cs) = ((Q c \<longrightarrow> \<not> list_ex P cs) \<and> all_before P Q cs)"

section \<open>Example inputs\<close>

text \<open>
  One rigid-body record of 72 bytes: group 1, mask 2, a sphere that follows its bone, of
  mass \<open>1.0f\<close> (bytes \<open>00 00 80 3F\<close> at offset 52).
\<close>

definition example_rigidbody_data :: "u8 list" where
  "example_rigidbody_data =
     [1, 0, 0, 0, 2, 0, 0, 0, 0, 0, 0, 0, 0, 0, 0, 0] @ replicate 36 0 @ [0, 0, 0x80, 0x3F]
       @ replicate 16 0"

definition example_body :: "PhysicsMode \<Rightarrow> f32 \<Rightarrow> RigidBody" where
  "example_body mode m =
     \<lparr> collision_group = 1, collision_mask = 2, shape_type = SPHERE,
       shape_size = Vector3f f32_one f32_one f32_one,
       shape_position = Vector3f f32_zero f32_zero f32_zero,
       shape_rotation = Vector3f f32_zero f32_zero f32_zero,
       mass = m, move_attenuation = f32_zero, rotation_damping = f32_zero,
       repulsion = f32_zero, friction_force = f32_zero, physics_mode = mode \<rparr>"

definition example_joint :: "JointType \<Rightarrow> u32 \<Rightarrow> u32 \<Rightarrow> Vector3f \<Rightarrow> Vector3f \<Rightarrow> Joint" where
  "example_joint t a b pos_spring rot_spring =
     \<lparr> joint_type = t, rigidbody_a_index = a, rigidbody_b_index = b,
       position = Vector3f f32_zero f32_one f32_zero,
       rotation = Vector3f f32_zero f32_zero f32_zero,
       position_min = Vector3f f32_zero f32_zero f32_zero,
       position_max = Vector3f f32_zero f32_zero f32_zero,
       rotation_min = Vector3f f32_zero f32_zero f32_zero,
       rotation_max = Vector3f f32_zero f32_zero f32_zero,
       position_spring = pos_spring, rotation_spring = rot_spring \<rparr>"

text \<open>The identity as a column-major matrix of 16 floats.\<close>

definition identity_matrix :: "f32 list" where
  "identity_matrix =
     [f32_one, f32_zero, f32_zero, f32_zero,
      f32_zero, f32_one, f32_zero, f32_zero,
      f32_zero, f32_zero, f32_one, f32_zero,
      f32_zero, f32_zero, f32_zero, f32_one]"

text \<open>A transform that is not the identity: a quarter turn about Z, moved by (1, 1, 1).\<close>

definition example_transform :: btTransform where
  "example_transform =
     \<lparr> m_basis = btMatrix3x3 (Vector3f f32_zero (f32_neg f32_one) f32_zero)
                             (Vector3f f32_one f32_zero f32_zero)
                             (Vector3f f32_zero f32_zero f32_one),
       m_origin = Vector3f f32_one f32_one f32_one \<rparr>"

text \<open>A scene of one sphere of mass \<open>1.0f\<close> in the given mode, without joints.\<close>

definition example_scene :: "PhysicsMode \<Rightarrow> PhysicsScene" where
  "example_scene mode = \<lparr> scene_rigidbodies = [example_body mode f32_one], scene_joints = [] \<rparr>"

text \<open>
  A scene of two spheres and one joint between them, of the given type, with position
  springs \<open>(1.0, 0.0, 1.0)\<close> and no rotation spring; its buffer holds two identities.
\<close>

definition example_scene2 :: "JointType \<Rightarrow> PhysicsScene" where
  "example_scene2 t =
     \<lparr> scene_rigidbodies = [example_body FOLLOW_BONE f32_one, example_body PHYSICS f32_one],
       scene_joints = [example_joint t 0 1 (Vector3f f32_one f32_zero f32_one)
                         (Vector3f f32_zero f32_zero f32_zero)] \<rparr>"

text \<open>
  Two spheres, a joint between them, and a second joint that names rigid body 5 of 2; the
  buffer for it holds two identities.
\<close>

definition example_scene_bad_second_joint :: PhysicsScene where
  "example_scene_bad_second_joint =
     \<lparr> scene_rigidbodies = [example_body FOLLOW_BONE f32_one, example_body PHYSICS f32_one],
       scene_joints = [example_joint SPRING_6DOF 0 1 (Vector3f f32_one f32_zero f32_one)
                         (Vector3f f32_zero f32_zero f32_zero),
                       example_joint SPRING_6DOF 5 0 (Vector3f f32_zero f32_zero f32_zero)
                         (Vector3f f32_zero f32_zero f32_zero)] \<rparr>"

text \<open>
  Proxies for the collision filter: the ground at address 0; at 1 a body of group 1 that
  collides with group 4 only; at 2 a body of group 2; at 3 a body of group 4 that collides
  with everything.
\<close>

definition example_proxies :: "nat \<Rightarrow> btBroadphaseProxy" where
  "example_proxies p =
     (if p = 1 then \<lparr> m_collisionFilterGroup = 1, m_collisionFilterMask = 4 \<rparr>
      else if p = 2 then \<lparr> m_collisionFilterGroup = 2, m_collisionFilterMask = 0xFFFFFFFF \<rparr>
      else if p = 3 then \<lparr> m_collisionFilterGroup = 4, m_collisionFilterMask = 0xFFFFFFFF \<rparr>
      else \<lparr> m_collisionFilterGroup = 2, m_collisionFilterMask = 0xFFFFFFFD \<rparr>)"

section \<open>Properties of the decoder\<close>

lemma rigidbody_loop_eq:
  "rigidbody_loop data n i acc =
     acc @ map (\<lambda>k. read_rigidbody data (k * rigidbody_size)) [i ..< n]"
proof (induction data n i acc rule: rigidbody_loop.induct)
  case (1 data n i acc)
  show ?case
  proof (cases "i < n")
    case True
    then show ?thesis
      using "1.IH" by (subst rigidbody_loop.simps) (simp add: upt_conv_Cons)
  next
    case False
    then show ?thesis by (subst rigidbody_loop.simps) simp
  qed
qed

lemma joint_loop_eq:
  "joint_loop data n i acc = acc @ map (\<lambda>k. read_joint data (k * joint_size)) [i ..< n]"
proof (induction data n i acc rule: joint_loop.induct)
  case (1 data n i acc)
  show ?case
  proof (cases "i < n")
    case True
    then show ?thesis
      using "1.IH" by (subst joint_loop.simps) (simp add: upt_conv_Cons)
  next
    case False
    then show ?thesis by (subst joint_loop.simps) simp
  qed
qed

lemma unat_CopyField: "unat (CopyField data p) = le_value data p"
proof -
  have b: "uint (w :: u8) < 256" for w
    using uint_bounded [of w] by simp
  let ?s = "uint (data ! p) + 256 * (uint (data ! (p + 1)) + 256 * (uint (data ! (p + 2))
              + 256 * uint (data ! (p + 3))))"
  have lo: "0 \<le> ?s"
    by (intro add_nonneg_nonneg mult_nonneg_nonneg) simp_all
  have hi: "?s < 2 ^ 32"
    using b [of "data ! p"] b [of "data ! (p + 1)"] b [of "data ! (p + 2)"]
      b [of "data ! (p + 3)"] by simp
  have "uint (CopyField data p) = ?s mod 2 ^ 32"
    unfolding CopyField_def word_rcat_def comp_def
    by (simp only: uint_word_of_int rev.simps append.simps horner_sum_simps)
      (simp add: take_bit_eq_mod)
  then have "uint (CopyField data p) = ?s"
    using lo hi by simp
  then have "int (unat (CopyField data p)) = ?s"
    by simp
  also have "?s = int (le_value data p)"
    by (simp add: le_value_def)
  finally show ?thesis
    by linarith
qed

lemma DeserializeRigidbodies_eq:
  "DeserializeRigidbodies data =
     (if length data = 0 then Inl EmptyRigidbodyData
      else if \<not> 72 dvd length data then Inl InvalidRigidbodySize
      else Inr (map (\<lambda>k. read_rigidbody data (k * 72)) [0 ..< length data div 72]))"
  by (simp add: DeserializeRigidbodies_def rigidbody_loop_eq rigidbody_size_def Let_def
      mod_eq_0_iff_dvd)

lemma DeserializeJoints_eq:
  "DeserializeJoints data =
     (if \<not> 108 dvd length data then Inl InvalidJointSize
      else Inr (map (\<lambda>k. read_joint data (k * 108)) [0 ..< length data div 108]))"
  by (simp add: DeserializeJoints_def joint_loop_eq joint_size_def Let_def mod_eq_0_iff_dvd)

lemma vec_value_CopyVector3fField: "vec_value (CopyVector3fField data p) = le_vec3 data p"
  by (simp add: vec_value_def CopyVector3fField_def le_vec3_def unat_CopyField)

lemma unat_CopyEnumField: "unat (CopyEnumField data p) = le_value data p"
  by (simp add: CopyEnumField_def unat_CopyField)

text \<open>
  C2. Decoding rigid bodies fails exactly when the buffer is empty (with the error of the
  message "Empty rigidbody data") or its length is not a multiple of 72 (with the error
  of the message "Invalid rigidbody size"); decoding joints fails exactly when the length
  is not a multiple of 108; an empty joint buffer decodes to the empty list. A failure is a
  value that holds an error and no record, and the scene constructor returns no scene
  when either decoder fails.
\<close>

theorem C2_decode_fails_iff:
  "(DeserializeRigidbodies data = Inl EmptyRigidbodyData \<longleftrightarrow> length data = 0) \<and>
   (DeserializeRigidbodies data = Inl InvalidRigidbodySize \<longleftrightarrow>
      length data \<noteq> 0 \<and> \<not> 72 dvd length data) \<and>
   ((\<exists>e. DeserializeRigidbodies data = Inl e) \<longleftrightarrow> length data = 0 \<or> \<not> 72 dvd length data) \<and>
   (DeserializeJoints jdata = Inl InvalidJointSize \<longleftrightarrow> \<not> 108 dvd length jdata) \<and>
   ((\<exists>e. DeserializeJoints jdata = Inl e) \<longleftrightarrow> \<not> 108 dvd length jdata) \<and>
   DeserializeJoints [] = Inr [] \<and>
   ((\<exists>e. PhysicsScene_new data jdata = Inl e) \<longleftrightarrow>
      length data = 0 \<or> \<not> 72 dvd length data \<or> \<not> 108 dvd length jdata)"
  by (simp add: DeserializeRigidbodies_eq DeserializeJoints_eq PhysicsScene_new_def)

theorem C2_decode_fails_iff_witness:
  "DeserializeRigidbodies [] = Inl EmptyRigidbodyData \<and>
   DeserializeJoints (replicate 100 0) = Inl InvalidJointSize \<and>
   (\<exists>e. PhysicsScene_new [] (replicate 100 0) = Inl e)"
  using C2_decode_fails_iff [of "[]" "replicate 100 0"] by simp

text \<open>
  C3. A buffer of \<open>72 * N\<close> bytes with \<open>N \<ge> 1\<close> decodes to exactly \<open>N\<close> rigid bodies, and
  each field of the \<open>i\<close>-th one is the little-endian value at its offset in the \<open>i\<close>-th
  chunk of 72 bytes: collision_group at 0, collision_mask at 4, shape_type at 8,
  physics_mode at 12, shape_size at 16, shape_position at 28, shape_rotation at 40, mass at
  52, move_attenuation at 56, rotation_damping at 60, repulsion at 64, friction_force at 68
  (a float is the one whose bit pattern is that value, a vector three floats in a row).
\<close>

theorem C3_decode_rigidbodies:
  assumes "length data = 72 * N" and "1 \<le> N"
  shows "\<exists>rs. DeserializeRigidbodies data = Inr rs \<and> length rs = N \<and>
           (\<forall>i<N. unat (collision_group (rs ! i)) = le_value data (72 * i + 0) \<and>
                  unat (collision_mask (rs ! i)) = le_value data (72 * i + 4) \<and>
                  unat (shape_type (rs ! i)) = le_value data (72 * i + 8) \<and>
                  unat (physics_mode (rs ! i)) = le_value data (72 * i + 12) \<and>
                  vec_value (shape_size (rs ! i)) = le_vec3 data (72 * i + 16) \<and>
                  vec_value (shape_position (rs ! i)) = le_vec3 data (72 * i + 28) \<and>
                  vec_value (shape_rotation (rs ! i)) = le_vec3 data (72 * i + 40) \<and>
                  unat (mass (rs ! i)) = le_value data (72 * i + 52) \<and>
                  unat (move_attenuation (rs ! i)) = le_value data (72 * i + 56) \<and>
                  unat (rotation_damping (rs ! i)) = le_value data (72 * i + 60) \<and>
                  unat (repulsion (rs ! i)) = le_value data (72 * i + 64) \<and>
                  unat (friction_force (rs ! i)) = le_value data (72 * i + 68))"
proof -
  let ?rs = "map (\<lambda>k. read_rigidbody data (k * 72)) [0 ..< N]"
  have d: "DeserializeRigidbodies data = Inr ?rs"
    using assms by (simp add: DeserializeRigidbodies_eq)
  have f: "?rs ! i = read_rigidbody data (72 * i)" if "i < N" for i
    using that by (simp add: mult.commute)
  have "length ?rs = N"
    by simp
  moreover have "\<forall>i<N. unat (collision_group (?rs ! i)) = le_value data (72 * i + 0) \<and>
                  unat (collision_mask (?rs ! i)) = le_value data (72 * i + 4) \<and>
                  unat (shape_type (?rs ! i)) = le_value data (72 * i + 8) \<and>
                  unat (physics_mode (?rs ! i)) = le_value data (72 * i + 12) \<and>
                  vec_value (shape_size (?rs ! i)) = le_vec3 data (72 * i + 16) \<and>
                  vec_value (shape_position (?rs ! i)) = le_vec3 data (72 * i + 28) \<and>
                  vec_value (shape_rotation (?rs ! i)) = le_vec3 data (72 * i + 40) \<and>
                  unat (mass (?rs ! i)) = le_value data (72 * i + 52) \<and>
                  unat (move_attenuation (?rs ! i)) = le_value data (72 * i + 56) \<and>
                  unat (rotation_damping (?rs ! i)) = le_value data (72 * i + 60) \<and>
                  unat (repulsion (?rs ! i)) = le_value data (72 * i + 64) \<and>
                  unat (friction_force (?rs ! i)) = le_value data (72 * i + 68)"
  proof (intro allI impI)
    fix i assume "i < N"
    then show "unat (collision_group (?rs ! i)) = le_value data (72 * i + 0) \<and>
                  unat (collision_mask (?rs ! i)) = le_value data (72 * i + 4) \<and>
                  unat (shape_type (?rs ! i)) = le_value data (72 * i + 8) \<and>
                  unat (physics_mode (?rs ! i)) = le_value data (72 * i + 12) \<and>
                  vec_value (shape_size (?rs ! i)) = le_vec3 data (72 * i + 16) \<and>
                  vec_value (shape_position (?rs ! i)) = le_vec3 data (72 * i + 28) \<and>
                  vec_value (shape_rotation (?rs ! i)) = le_vec3 data (72 * i + 40) \<and>
                  unat (mass (?rs ! i)) = le_value data (72 * i + 52) \<and>
                  unat (move_attenuation (?rs ! i)) = le_value data (72 * i + 56) \<and>
                  unat (rotation_damping (?rs ! i)) = le_value data (72 * i + 60) \<and>
                  unat (repulsion (?rs ! i)) = le_value data (72 * i + 64) \<and>
                  unat (friction_force (?rs ! i)) = le_value data (72 * i + 68)"
      unfolding f [OF \<open>i < N\<close>]
      by (simp only: read_rigidbody_def RigidBody.simps unat_CopyField unat_CopyEnumField
          vec_value_CopyVector3fField simp_thms)
  qed
  ultimately show ?thesis
    using d by blast
qed

theorem C3_decode_rigidbodies_witness:
  "\<exists>rs. DeserializeRigidbodies example_rigidbody_data = Inr rs \<and> length rs = 1 \<and>
     unat (collision_group (rs ! 0)) = 1 \<and> unat (collision_mask (rs ! 0)) = 2 \<and>
     unat (physics_mode (rs ! 0)) = 0 \<and> unat (mass (rs ! 0)) = 0x3F800000"
proof -
  have len: "length example_rigidbody_data = 72 * 1"
    by (simp add: example_rigidbody_data_def)
  have v: "le_value example_rigidbody_data 0 = 1" "le_value example_rigidbody_data 4 = 2"
    "le_value example_rigidbody_data 12 = 0" "le_value example_rigidbody_data 52 = 0x3F800000"
    by (simp_all add: le_value_def example_rigidbody_data_def nth_append)
  from C3_decode_rigidbodies [OF len] obtain rs where
    "DeserializeRigidbodies example_rigidbody_data = Inr rs" "length rs = 1"
    "\<forall>i<1. unat (collision_group (rs ! i)) = le_value example_rigidbody_data (72 * i + 0) \<and>
                  unat (collision_mask (rs ! i)) = le_value example_rigidbody_data (72 * i + 4) \<and>
                  unat (shape_type (rs ! i)) = le_value example_rigidbody_data (72 * i + 8) \<and>
                  unat (physics_mode (rs ! i)) = le_value example_rigidbody_data (72 * i + 12) \<and>
                  vec_value (shape_size (rs ! i)) = le_vec3 example_rigidbody_data (72 * i + 16) \<and>
                  vec_value (shape_position (rs ! i)) = le_vec3 example_rigidbody_data (72 * i + 28) \<and>
                  vec_value (shape_rotation (rs ! i)) = le_vec3 example_rigidbody_data (72 * i + 40) \<and>
                  unat (mass (rs ! i)) = le_value example_rigidbody_data (72 * i + 52) \<and>
                  unat (move_attenuation (rs ! i)) = le_value example_rigidbody_data (72 * i + 56) \<and>
                  unat (rotation_damping (rs ! i)) = le_value example_rigidbody_data (72 * i + 60) \<and>
                  unat (repulsion (rs ! i)) = le_value example_rigidbody_data (72 * i + 64) \<and>
                  unat (friction_force (rs ! i)) = le_value example_rigidbody_data (72 * i + 68)"
    by auto
  then show ?thesis
    using v by auto
qed

section \<open>Properties of the world\<close>

subsection \<open>The transform buffer\<close>

lemma length_getOpenGLMatrix: "length (getOpenGLMatrix t) = 16"
  by (simp add: getOpenGLMatrix_def)

lemma setFromOpenGLMatrix_getOpenGLMatrix: "setFromOpenGLMatrix (getOpenGLMatrix t) = t"
  by (cases "m_basis t"; cases "m_origin t")
    (simp add: setFromOpenGLMatrix_def getOpenGLMatrix_def)

lemma length_buffer_store:
  "i * 16 + 16 \<le> length buffer \<Longrightarrow> length m = 16 \<Longrightarrow> length (buffer_store buffer i m) = length buffer"
  by (simp add: buffer_store_def)

lemma buffer_slot_store_same:
  "i * 16 + 16 \<le> length buffer \<Longrightarrow> length m = 16 \<Longrightarrow> buffer_slot (buffer_store buffer i m) i = m"
  by (simp add: buffer_store_def buffer_slot_def)

lemma buffer_slot_store_other:
  assumes "k * 16 + 16 \<le> length buffer" and "length m = 16" and "i \<noteq> k"
  shows "buffer_slot (buffer_store buffer k m) i = buffer_slot buffer i"
proof (cases "i < k")
  case True
  then have "i * 16 + 16 \<le> k * 16" by simp
  then show ?thesis
    using assms by (auto simp add: buffer_store_def buffer_slot_def drop_take min_def)
next
  case False
  with assms have "k * 16 + 16 \<le> i * 16" by simp
  then obtain d where d: "i * 16 = k * 16 + 16 + d"
    using le_Suc_ex by blast
  show ?thesis
    using assms unfolding buffer_store_def buffer_slot_def d
    by (simp add: add.commute)
qed

subsection \<open>The rigid-body loop\<close>

lemma make_rigidbody_motion_state:
  assumes "make_rigidbody buffer index item = Inr d"
  shows "rigidbody_index (motion_state d) = index"
    and "physics_mode item = FOLLOW_BONE \<Longrightarrow> motion_state d = FollowBoneMotionState index"
    and "physics_mode item = PHYSICS_PLUS_BONE \<Longrightarrow>
           motion_state d = PhysicsPlusBoneDynamicMotionState index"
  using assms
  by (auto simp: make_rigidbody_def make_motion_state_def Let_def FOLLOW_BONE_def PHYSICS_def
      PHYSICS_PLUS_BONE_def split: sum.splits if_splits)

lemma make_rigidbody_mass:
  assumes "make_rigidbody buffer index item = Inr d"
  shows "m_mass (construction_info (rigidbody d)) = mass item"
    and "m_localInertia (construction_info (rigidbody d)) =
           (if physics_mode item \<noteq> FOLLOW_BONE \<and> f32_nonzero (mass item)
            then calculateLocalInertia (shape d) (mass item) else zero_inertia)"
  using assms
  by (auto simp: make_rigidbody_def Let_def btRigidBody_new_def f32_nonzero_def f32_zero_def
      split: sum.splits if_splits)

lemma make_rigidbody_ok_iff:
  "(\<exists>d. make_rigidbody buffer index item = Inr d) \<longleftrightarrow>
     shape_type item \<in> {SPHERE, BOX, CAPSULE} \<and>
     physics_mode item \<in> {FOLLOW_BONE, PHYSICS, PHYSICS_PLUS_BONE}"
  by (auto simp: make_rigidbody_def make_shape_def make_motion_state_def Let_def
      split: sum.splits if_splits)

lemma make_rigidbody_error:
  "make_rigidbody buffer index item = Inl e \<Longrightarrow> e = InvalidShape \<or> e = InvalidPhysicsMode"
  by (auto simp: make_rigidbody_def make_shape_def make_motion_state_def Let_def
      split: sum.splits if_splits)

lemma add_rigidbodies_Inr:
  assumes "add_rigidbodies this n items = Inr this'"
  shows "\<exists>ds. rigidbodies this' = rigidbodies this @ ds \<and> length ds = length items \<and>
           (\<forall>k<length items. make_rigidbody (transform_buffer this) (n + k) (items ! k) = Inr (ds ! k)) \<and>
           transform_buffer this' = transform_buffer this \<and> joints this' = joints this"
  using assms
proof (induction items arbitrary: this n)
  case Nil
  then show ?case by simp
next
  case (Cons item items)
  from Cons.prems obtain d where d: "make_rigidbody (transform_buffer this) n item = Inr d"
    and rest: "add_rigidbodies
            (this \<lparr> world := world this @ [addRigidBody (scene_rigidbody (length (rigidbodies this)))],
                    rigidbodies := rigidbodies this @ [d] \<rparr>) (n + 1) items = Inr this'"
    by (auto split: sum.splits)
  from Cons.IH [OF rest] obtain ds where ds: "rigidbodies this' = (rigidbodies this @ [d]) @ ds"
    "length ds = length items"
    "\<forall>k<length items. make_rigidbody (transform_buffer this) (n + 1 + k) (items ! k) = Inr (ds ! k)"
    "transform_buffer this' = transform_buffer this" "joints this' = joints this"
    by auto
  have "\<forall>k<length (item # items).
          make_rigidbody (transform_buffer this) (n + k) ((item # items) ! k) = Inr ((d # ds) ! k)"
  proof (intro allI impI)
    fix k assume "k < length (item # items)"
    then show "make_rigidbody (transform_buffer this) (n + k) ((item # items) ! k) = Inr ((d # ds) ! k)"
      using d ds(3) by (cases k) auto
  qed
  then show ?case
    using ds by (intro exI [of _ "d # ds"]) simp
qed

lemma add_rigidbodies_Inl:
  "add_rigidbodies this n items = Inl (e, w) \<Longrightarrow> e = InvalidShape \<or> e = InvalidPhysicsMode"
proof (induction items arbitrary: this n)
  case Nil
  then show ?case by simp
next
  case (Cons item items)
  then show ?case
    by (auto split: sum.splits dest: make_rigidbody_error)
qed

lemma add_rigidbodies_ok:
  assumes "\<forall>item\<in>set items. shape_type item \<in> {SPHERE, BOX, CAPSULE} \<and>
             physics_mode item \<in> {FOLLOW_BONE, PHYSICS, PHYSICS_PLUS_BONE}"
  shows "\<exists>this'. add_rigidbodies this n items = Inr this'"
  using assms
proof (induction items arbitrary: this n)
  case Nil
  then show ?case by simp
next
  case (Cons item items)
  then obtain d where "make_rigidbody (transform_buffer this) n item = Inr d"
    using make_rigidbody_ok_iff [of "transform_buffer this" n item] by auto
  then show ?case
    using Cons by simp
qed

subsection \<open>The joint loop\<close>

lemma make_constraint_Inl_iff:
  "(\<exists>e. make_constraint bodies j = Inl e) \<longleftrightarrow>
     length bodies \<le> unat (rigidbody_a_index j) \<or> length bodies \<le> unat (rigidbody_b_index j)"
  by (auto simp: make_constraint_def Let_def)

lemma make_constraint_error:
  "make_constraint bodies j = Inl e \<Longrightarrow> e = InvalidRigidbodyIndex"
  by (auto simp: make_constraint_def Let_def split: if_splits)

lemma add_joints_Inl: "add_joints this js = Inl (e, w) \<Longrightarrow> e = InvalidRigidbodyIndex"
proof (induction js arbitrary: this)
  case Nil
  then show ?case by simp
next
  case (Cons j js)
  then show ?case
    by (auto split: sum.splits dest: make_constraint_error)
qed

lemma add_joints_bad_index:
  assumes "j \<in> set js"
    and "length (rigidbodies this) \<le> unat (rigidbody_a_index j) \<or>
         length (rigidbodies this) \<le> unat (rigidbody_b_index j)"
  shows "\<exists>w. add_joints this js = Inl (InvalidRigidbodyIndex, w)"
  using assms
proof (induction js arbitrary: this)
  case Nil
  then show ?case by simp
next
  case (Cons j' js)
  show ?case
  proof (cases "make_constraint (rigidbodies this) j'")
    case (Inl e)
    then show ?thesis
      using make_constraint_error [OF Inl] by simp
  next
    case (Inr c)
    then have "j' \<noteq> j"
      using Cons.prems(2) make_constraint_Inl_iff [of "rigidbodies this" j] by auto
    then have "j \<in> set js"
      using Cons.prems(1) by simp
    then show ?thesis
      using Inr Cons.IH [of "this \<lparr> world := world this @ [addConstraint (length (joints this)) True],
                    joints := joints this @ [c] \<rparr>"] Cons.prems(2) by simp
  qed
qed

lemma add_joints_Inr:
  assumes "add_joints this js = Inr this'"
  shows "\<exists>cs. joints this' = joints this @ cs \<and> length cs = length js \<and>
           (\<forall>k<length js. make_constraint (rigidbodies this) (js ! k) = Inr (cs ! k)) \<and>
           transform_buffer this' = transform_buffer this \<and> rigidbodies this' = rigidbodies this"
  using assms
proof (induction js arbitrary: this)
  case Nil
  then show ?case by simp
next
  case (Cons j js)
  from Cons.prems obtain c where c: "make_constraint (rigidbodies this) j = Inr c"
    and rest: "add_joints
            (this \<lparr> world := world this @ [addConstraint (length (joints this)) True],
                    joints := joints this @ [c] \<rparr>) js = Inr this'"
    by (auto split: sum.splits)
  from Cons.IH [OF rest] obtain cs where cs: "joints this' = (joints this @ [c]) @ cs"
    "length cs = length js"
    "\<forall>k<length js. make_constraint (rigidbodies this) (js ! k) = Inr (cs ! k)"
    "transform_buffer this' = transform_buffer this" "rigidbodies this' = rigidbodies this"
    by auto
  have "\<forall>k<length (j # js). make_constraint (rigidbodies this) ((j # js) ! k) = Inr ((c # cs) ! k)"
  proof (intro allI impI)
    fix k assume "k < length (j # js)"
    then show "make_constraint (rigidbodies this) ((j # js) ! k) = Inr ((c # cs) ! k)"
      using c cs(3) by (cases k) auto
  qed
  then show ?case
    using cs by (intro exI [of _ "c # cs"]) simp
qed

lemma PhysicsWorld_new_Inr:
  assumes "PhysicsWorld_new scene initial_transform = Inr this"
  shows "length initial_transform = length (GetRigidBodies scene) * 16"
    and "transform_buffer this = initial_transform"
    and "length (rigidbodies this) = length (GetRigidBodies scene)"
    and "\<forall>k<length (GetRigidBodies scene).
           make_rigidbody initial_transform k (GetRigidBodies scene ! k) = Inr (rigidbodies this ! k)"
    and "length (joints this) = length (GetJoints scene)"
    and "\<forall>k<length (GetJoints scene).
           make_constraint (rigidbodies this) (GetJoints scene ! k) = Inr (joints this ! k)"
proof -
  let ?w0 = "\<lparr> world = [setGravity, addRigidBody ground_rigidbody, setOverlapFilterCallback],
               rigidbodies = [], joints = [], transform_buffer = initial_transform \<rparr>"
  from assms have len: "length initial_transform = length (GetRigidBodies scene) * 16"
    by (auto simp: PhysicsWorld_new_def Let_def split: if_splits)
  from assms len obtain w1 where w1: "add_rigidbodies ?w0 0 (GetRigidBodies scene) = Inr w1"
    and w2: "add_joints w1 (GetJoints scene) = Inr this"
    by (auto simp: PhysicsWorld_new_def Let_def split: if_splits sum.splits)
  from add_rigidbodies_Inr [OF w1] obtain ds where ds: "rigidbodies w1 = ds"
    "length ds = length (GetRigidBodies scene)"
    "\<forall>k<length (GetRigidBodies scene).
       make_rigidbody initial_transform k (GetRigidBodies scene ! k) = Inr (ds ! k)"
    "transform_buffer w1 = initial_transform" "joints w1 = []"
    by auto
  from add_joints_Inr [OF w2] obtain cs where cs: "joints this = cs"
    "length cs = length (GetJoints scene)"
    "\<forall>k<length (GetJoints scene). make_constraint (rigidbodies w1) (GetJoints scene ! k) = Inr (cs ! k)"
    "transform_buffer this = transform_buffer w1" "rigidbodies this = rigidbodies w1"
    using ds(5) by auto
  show "length initial_transform = length (GetRigidBodies scene) * 16" by (rule len)
  show "transform_buffer this = initial_transform" using cs ds by simp
  show "length (rigidbodies this) = length (GetRigidBodies scene)" using cs ds by simp
  show "\<forall>k<length (GetRigidBodies scene).
           make_rigidbody initial_transform k (GetRigidBodies scene ! k) = Inr (rigidbodies this ! k)"
    using cs ds by simp
  show "length (joints this) = length (GetJoints scene)" using cs by simp
  show "\<forall>k<length (GetJoints scene).
           make_constraint (rigidbodies this) (GetJoints scene ! k) = Inr (joints this ! k)"
    using cs by simp
qed

subsection \<open>Stepping\<close>

lemma motion_state_callback_rigidbodies:
  "rigidbodies (motion_state_callback this c) = rigidbodies this"
  by (cases c) auto

lemma length_setWorldTransform:
  "rigidbody_index ms * 16 + 16 \<le> length buffer \<Longrightarrow>
   length (setWorldTransform ms buffer t) = length buffer"
  by (cases ms) (simp_all add: length_buffer_store length_getOpenGLMatrix Let_def)

lemma setWorldTransform_other:
  "rigidbody_index ms * 16 + 16 \<le> length buffer \<Longrightarrow> i \<noteq> rigidbody_index ms \<Longrightarrow>
   buffer_slot (setWorldTransform ms buffer t) i = buffer_slot buffer i"
  by (cases ms) (simp_all add: buffer_slot_store_other length_getOpenGLMatrix Let_def)

lemma setWorldTransform_FollowBone:
  "setWorldTransform (FollowBoneMotionState i) buffer t = buffer"
  by simp

lemma setWorldTransform_PhysicsPlusBone:
  assumes "i * 16 + 16 \<le> length buffer"
  shows "setFromOpenGLMatrix (buffer_slot (setWorldTransform (PhysicsPlusBoneDynamicMotionState i) buffer t) i)
           = t \<lparr> m_origin := m_origin (setFromOpenGLMatrix (buffer_slot buffer i)) \<rparr>"
  using assms
  by (simp add: Let_def buffer_slot_store_same length_getOpenGLMatrix
      setFromOpenGLMatrix_getOpenGLMatrix)

text \<open>
  What stepping keeps: the bodies, the length of the buffer, and for each body whatever its
  own motion state keeps of its slot.
\<close>

lemma foldl_motion_state_callback:
  assumes "\<forall>k<length (rigidbodies this). rigidbody_index (motion_state (rigidbodies this ! k)) = k"
    and "length (transform_buffer this) = length (rigidbodies this) * 16"
    and "i < length (rigidbodies this)"
  shows "rigidbodies (foldl motion_state_callback this engine) = rigidbodies this \<and>
         length (transform_buffer (foldl motion_state_callback this engine))
           = length (transform_buffer this) \<and>
         (motion_state (rigidbodies this ! i) = FollowBoneMotionState i \<longrightarrow>
            buffer_slot (transform_buffer (foldl motion_state_callback this engine)) i
              = buffer_slot (transform_buffer this) i) \<and>
         (motion_state (rigidbodies this ! i) = PhysicsPlusBoneDynamicMotionState i \<longrightarrow>
            m_origin (setFromOpenGLMatrix
                (buffer_slot (transform_buffer (foldl motion_state_callback this engine)) i))
              = m_origin (setFromOpenGLMatrix (buffer_slot (transform_buffer this) i)))"
  using assms
proof (induction engine arbitrary: this)
  case Nil
  then show ?case by simp
next
  case (Cons c engine)
  let ?w = "motion_state_callback this c"
  have rb: "rigidbodies ?w = rigidbodies this"
    by (rule motion_state_callback_rigidbodies)
  have in_range: "rigidbody_index (motion_state (rigidbodies this ! k)) * 16 + 16
                    \<le> length (transform_buffer this)" if "k < length (rigidbodies this)" for k
    using that Cons.prems(1,2) by simp
  have len: "length (transform_buffer ?w) = length (transform_buffer this)"
    using in_range by (cases c) (simp_all add: length_setWorldTransform)
  have fb: "buffer_slot (transform_buffer ?w) i = buffer_slot (transform_buffer this) i"
    if "motion_state (rigidbodies this ! i) = FollowBoneMotionState i"
  proof (cases c)
    case (read_call k)
    then show ?thesis by simp
  next
    case (write_call k t)
    show ?thesis
    proof (cases "k = i")
      case True
      then show ?thesis using write_call that Cons.prems(3) by simp
    next
      case False
      then show ?thesis
        using write_call in_range [of k] Cons.prems(1)
        by (simp add: setWorldTransform_other)
    qed
  qed
  have ppb: "m_origin (setFromOpenGLMatrix (buffer_slot (transform_buffer ?w) i))
               = m_origin (setFromOpenGLMatrix (buffer_slot (transform_buffer this) i))"
    if "motion_state (rigidbodies this ! i) = PhysicsPlusBoneDynamicMotionState i"
  proof (cases c)
    case (read_call k)
    then show ?thesis by simp
  next
    case (write_call k t)
    show ?thesis
    proof (cases "k = i")
      case True
      have "i * 16 + 16 \<le> length (transform_buffer this)"
        using Cons.prems(2,3) by simp
      then show ?thesis
        using True write_call that Cons.prems(3)
        by (simp add: setWorldTransform_PhysicsPlusBone del: setWorldTransform.simps)
    next
      case False
      then show ?thesis
        using write_call in_range [of k] Cons.prems(1)
        by (simp add: setWorldTransform_other)
    qed
  qed
  have IH: "rigidbodies (foldl motion_state_callback ?w engine) = rigidbodies ?w \<and>
         length (transform_buffer (foldl motion_state_callback ?w engine))
           = length (transform_buffer ?w) \<and>
         (motion_state (rigidbodies ?w ! i) = FollowBoneMotionState i \<longrightarrow>
            buffer_slot (transform_buffer (foldl motion_state_callback ?w engine)) i
              = buffer_slot (transform_buffer ?w) i) \<and>
         (motion_state (rigidbodies ?w ! i) = PhysicsPlusBoneDynamicMotionState i \<longrightarrow>
            m_origin (setFromOpenGLMatrix
                (buffer_slot (transform_buffer (foldl motion_state_callback ?w engine)) i))
              = m_origin (setFromOpenGLMatrix (buffer_slot (transform_buffer ?w) i)))"
    using Cons.prems by (intro Cons.IH) (simp_all only: rb len)
  show ?case
    using IH fb ppb by (simp only: foldl_Cons rb len) simp
qed

subsection \<open>Well-formed inputs\<close>

lemma add_joints_ok:
  assumes "\<forall>j\<in>set js. unat (rigidbody_a_index j) < length (rigidbodies this) \<and>
             unat (rigidbody_b_index j) < length (rigidbodies this)"
  shows "\<exists>this'. add_joints this js = Inr this'"
  using assms
proof (induction js arbitrary: this)
  case Nil
  then show ?case by simp
next
  case (Cons j js)
  have "\<not> (\<exists>e. make_constraint (rigidbodies this) j = Inl e)"
    using Cons.prems by (simp add: make_constraint_Inl_iff)
  then obtain c where c: "make_constraint (rigidbodies this) j = Inr c"
    by (cases "make_constraint (rigidbodies this) j") auto
  show ?case
    using c Cons.prems
      Cons.IH [of "this \<lparr> world := world this @ [addConstraint (length (joints this)) True],
                    joints := joints this @ [c] \<rparr>"]
    by simp
qed

text \<open>Construction succeeds on every well-formed input.\<close>

lemma PhysicsWorld_new_ok:
  assumes "length initial_transform = length (GetRigidBodies scene) * 16"
    and "\<forall>item\<in>set (GetRigidBodies scene). shape_type item \<in> {SPHERE, BOX, CAPSULE} \<and>
             physics_mode item \<in> {FOLLOW_BONE, PHYSICS, PHYSICS_PLUS_BONE}"
    and "\<forall>j\<in>set (GetJoints scene). unat (rigidbody_a_index j) < length (GetRigidBodies scene) \<and>
             unat (rigidbody_b_index j) < length (GetRigidBodies scene)"
  shows "\<exists>this. PhysicsWorld_new scene initial_transform = Inr this"
proof -
  let ?w0 = "\<lparr> world = [setGravity, addRigidBody ground_rigidbody, setOverlapFilterCallback],
               rigidbodies = [], joints = [], transform_buffer = initial_transform \<rparr>"
  from add_rigidbodies_ok [OF assms(2)] obtain w1 where
    w1: "add_rigidbodies ?w0 0 (GetRigidBodies scene) = Inr w1"
    by blast
  from add_rigidbodies_Inr [OF w1] have "length (rigidbodies w1) = length (GetRigidBodies scene)"
    by auto
  with assms(3) obtain w2 where "add_joints w1 (GetJoints scene) = Inr w2"
    using add_joints_ok [of "GetJoints scene" w1] by auto
  then show ?thesis
    using w1 assms(1) by (simp add: PhysicsWorld_new_def Let_def)
qed

lemma example_scene_ok:
  "mode \<in> {FOLLOW_BONE, PHYSICS, PHYSICS_PLUS_BONE} \<Longrightarrow>
   \<exists>this. PhysicsWorld_new (example_scene mode) identity_matrix = Inr this"
  by (rule PhysicsWorld_new_ok)
    (simp_all add: example_scene_def example_body_def identity_matrix_def GetRigidBodies_def
      GetJoints_def)

lemma example_scene2_ok:
  "\<exists>this. PhysicsWorld_new (example_scene2 t) (identity_matrix @ identity_matrix) = Inr this"
  by (rule PhysicsWorld_new_ok)
    (simp_all add: example_scene2_def example_body_def example_joint_def identity_matrix_def
      GetRigidBodies_def GetJoints_def)

subsection \<open>The motion states under stepping\<close>

text \<open>
  C9. For a body in mode FollowBone at index \<open>i\<close>, the world holds the motion state
  \<open>FollowBoneMotionState i\<close>; its \<open>getWorldTransform\<close> returns the transform stored in
  slot \<open>i\<close> of the buffer it is given, its \<open>setWorldTransform\<close> returns the buffer
  unchanged for every transform, and whatever motion-state calls the engine makes during a
  \<open>Step\<close>, slot \<open>i\<close> of the transform buffer is afterwards what it was before.
\<close>

theorem C9_follow_bone_inert:
  assumes "PhysicsWorld_new scene initial_transform = Inr this"
    and "i < length (GetRigidBodies scene)"
    and "physics_mode (GetRigidBodies scene ! i) = FOLLOW_BONE"
  shows "motion_state (rigidbodies this ! i) = FollowBoneMotionState i \<and>
         (\<forall>buffer. getWorldTransform (FollowBoneMotionState i) buffer
                     = setFromOpenGLMatrix (buffer_slot buffer i)) \<and>
         (\<forall>buffer t. setWorldTransform (FollowBoneMotionState i) buffer t = buffer) \<and>
         (\<forall>engine delta_time max_sub_steps fixed_time_step.
            buffer_slot (transform_buffer
                (Step engine delta_time max_sub_steps fixed_time_step this)) i
              = buffer_slot (transform_buffer this) i)"
proof -
  note w = PhysicsWorld_new_Inr [OF assms(1)]
  have idx: "\<forall>k<length (rigidbodies this). rigidbody_index (motion_state (rigidbodies this ! k)) = k"
    using w(3,4) make_rigidbody_motion_state(1) by auto
  have len: "length (transform_buffer this) = length (rigidbodies this) * 16"
    using w(1,2,3) by simp
  have i: "i < length (rigidbodies this)"
    using assms(2) w(3) by simp
  have ms: "motion_state (rigidbodies this ! i) = FollowBoneMotionState i"
    using w(4) assms(2,3) make_rigidbody_motion_state(2) by blast
  have "buffer_slot (transform_buffer (Step engine dt ms fts this)) i
          = buffer_slot (transform_buffer this) i" for engine dt ms fts
    using foldl_motion_state_callback
      [of "this \<lparr> world := world this @ [stepSimulation dt (float_to_int ms) fts] \<rparr>" i engine]
      idx len i ms
    by (simp add: Step_def)
  then show ?thesis
    using ms by simp
qed

theorem C9_follow_bone_inert_witness:
  "\<exists>this. PhysicsWorld_new (example_scene FOLLOW_BONE) identity_matrix = Inr this \<and>
     motion_state (rigidbodies this ! 0) = FollowBoneMotionState 0 \<and>
     buffer_slot (transform_buffer (Step [write_call 0 example_transform] f32_one f32_one f32_one this)) 0
       = identity_matrix"
proof -
  obtain this where w: "PhysicsWorld_new (example_scene FOLLOW_BONE) identity_matrix = Inr this"
    using example_scene_ok [of FOLLOW_BONE] by auto
  have "transform_buffer this = identity_matrix"
    using PhysicsWorld_new_Inr(2) [OF w] .
  moreover have "buffer_slot identity_matrix 0 = identity_matrix"
    by (simp add: buffer_slot_def identity_matrix_def)
  ultimately show ?thesis
    using w C9_follow_bone_inert [OF w, of 0]
    by (simp add: example_scene_def example_body_def GetRigidBodies_def)
qed

text \<open>
  C4. For a body in mode PhysicsPlusBone at index \<open>i\<close>, the world holds the motion state
  \<open>PhysicsPlusBoneDynamicMotionState i\<close>, whose slot lies inside the transform buffer; its
  \<open>setWorldTransform\<close> with a transform \<open>t\<close> leaves in slot \<open>i\<close> a transform with the
  rotation of \<open>t\<close> and the translation that slot \<open>i\<close> held before; and whatever
  motion-state calls the engine makes during a \<open>Step\<close>, the translation in slot \<open>i\<close> is
  afterwards what it was before (the rotation need not be, as the example shows).
\<close>

theorem C4_physics_plus_bone_pins_translation:
  assumes "PhysicsWorld_new scene initial_transform = Inr this"
    and "i < length (GetRigidBodies scene)"
    and "physics_mode (GetRigidBodies scene ! i) = PHYSICS_PLUS_BONE"
  shows "motion_state (rigidbodies this ! i) = PhysicsPlusBoneDynamicMotionState i \<and>
         i * 16 + 16 \<le> length (transform_buffer this) \<and>
         (\<forall>buffer t. i * 16 + 16 \<le> length buffer \<longrightarrow>
            m_basis (setFromOpenGLMatrix (buffer_slot
                (setWorldTransform (PhysicsPlusBoneDynamicMotionState i) buffer t) i)) = m_basis t \<and>
            m_origin (setFromOpenGLMatrix (buffer_slot
                (setWorldTransform (PhysicsPlusBoneDynamicMotionState i) buffer t) i))
              = m_origin (setFromOpenGLMatrix (buffer_slot buffer i))) \<and>
         (\<forall>engine delta_time max_sub_steps fixed_time_step.
            m_origin (setFromOpenGLMatrix (buffer_slot (transform_buffer
                (Step engine delta_time max_sub_steps fixed_time_step this)) i))
              = m_origin (setFromOpenGLMatrix (buffer_slot (transform_buffer this) i)))"
proof -
  note w = PhysicsWorld_new_Inr [OF assms(1)]
  have idx: "\<forall>k<length (rigidbodies this). rigidbody_index (motion_state (rigidbodies this ! k)) = k"
    using w(3,4) make_rigidbody_motion_state(1) by auto
  have len: "length (transform_buffer this) = length (rigidbodies this) * 16"
    using w(1,2,3) by simp
  have i: "i < length (rigidbodies this)"
    using assms(2) w(3) by simp
  have ms: "motion_state (rigidbodies this ! i) = PhysicsPlusBoneDynamicMotionState i"
    using w(4) assms(2,3) make_rigidbody_motion_state(3) by blast
  have rng: "i * 16 + 16 \<le> length (transform_buffer this)"
    using len i by simp
  have step: "m_origin (setFromOpenGLMatrix (buffer_slot (transform_buffer
                (Step engine dt ms fts this)) i))
              = m_origin (setFromOpenGLMatrix (buffer_slot (transform_buffer this) i))"
    for engine dt ms fts
    using foldl_motion_state_callback
      [of "this \<lparr> world := world this @ [stepSimulation dt (float_to_int ms) fts] \<rparr>" i engine]
      idx len i ms
    by (simp add: Step_def)
  have wr: "m_basis (setFromOpenGLMatrix (buffer_slot
                (setWorldTransform (PhysicsPlusBoneDynamicMotionState i) buffer t) i)) = m_basis t \<and>
            m_origin (setFromOpenGLMatrix (buffer_slot
                (setWorldTransform (PhysicsPlusBoneDynamicMotionState i) buffer t) i))
              = m_origin (setFromOpenGLMatrix (buffer_slot buffer i))"
    if "i * 16 + 16 \<le> length buffer" for buffer t
    by (simp only: setWorldTransform_PhysicsPlusBone [OF that]) simp
  show ?thesis
    using ms rng step wr by blast
qed

theorem C4_physics_plus_bone_pins_translation_witness:
  "\<exists>this. PhysicsWorld_new (example_scene PHYSICS_PLUS_BONE) identity_matrix = Inr this \<and>
     m_origin (setFromOpenGLMatrix (buffer_slot (transform_buffer
         (Step [write_call 0 example_transform] f32_one f32_one f32_one this)) 0))
       = Vector3f f32_zero f32_zero f32_zero \<and>
     m_origin example_transform \<noteq> Vector3f f32_zero f32_zero f32_zero \<and>
     m_basis (setFromOpenGLMatrix (buffer_slot
         (setWorldTransform (PhysicsPlusBoneDynamicMotionState 0) identity_matrix example_transform) 0))
       = m_basis example_transform \<and>
     m_basis example_transform \<noteq> m_basis (setFromOpenGLMatrix (buffer_slot identity_matrix 0))"
proof -
  obtain this where w: "PhysicsWorld_new (example_scene PHYSICS_PLUS_BONE) identity_matrix = Inr this"
    using example_scene_ok [of PHYSICS_PLUS_BONE] by auto
  have b: "transform_buffer this = identity_matrix"
    using PhysicsWorld_new_Inr(2) [OF w] .
  have s: "buffer_slot identity_matrix 0 = identity_matrix"
    by (simp add: buffer_slot_def identity_matrix_def)
  have o: "m_origin (setFromOpenGLMatrix identity_matrix) = Vector3f f32_zero f32_zero f32_zero"
    by (simp add: setFromOpenGLMatrix_def identity_matrix_def)
  have r: "m_basis example_transform \<noteq> m_basis (setFromOpenGLMatrix identity_matrix)"
    by (simp add: setFromOpenGLMatrix_def identity_matrix_def example_transform_def f32_one_def
        f32_zero_def)
  have n: "m_origin example_transform \<noteq> Vector3f f32_zero f32_zero f32_zero"
    by (simp add: example_transform_def f32_one_def f32_zero_def)
  have l: "0 * 16 + 16 \<le> length identity_matrix"
    by (simp add: identity_matrix_def)
  have h: "0 < length (GetRigidBodies (example_scene PHYSICS_PLUS_BONE))"
    "physics_mode (GetRigidBodies (example_scene PHYSICS_PLUS_BONE) ! 0) = PHYSICS_PLUS_BONE"
    by (simp_all add: example_scene_def example_body_def GetRigidBodies_def)
  show ?thesis
    using w C4_physics_plus_bone_pins_translation [OF w h] b s o r n l by auto
qed

subsection \<open>Springs\<close>

lemma set_springs_fresh:
  assumes "m_springEnabled c = replicate 6 False" and "m_springStiffness c = replicate 6 f32_zero"
  shows "m_springEnabled (set_springs j c) = map (\<lambda>axis. f32_nonzero (spring_field j axis)) [0 ..< 6]"
    and "m_springStiffness (set_springs j c) =
           map (\<lambda>axis. if f32_nonzero (spring_field j axis)
                       then (if axis = 2 then f32_neg (spring_field j axis) else spring_field j axis)
                       else f32_zero) [0 ..< 6]"
proof -
  have six: "[0 ..< 6] = [0, 1, 2, 3, 4, 5]"
    by (simp add: upt_rec)
  have rep: "replicate 6 v = [v, v, v, v, v, v]" for v :: 'a
    by (simp add: numeral_eq_Suc)
  show "m_springEnabled (set_springs j c) = map (\<lambda>axis. f32_nonzero (spring_field j axis)) [0 ..< 6]"
    using assms unfolding six rep
    by (simp add: set_springs_def enableSpring_def setStiffness_def spring_field_def Let_def)
  show "m_springStiffness (set_springs j c) =
           map (\<lambda>axis. if f32_nonzero (spring_field j axis)
                       then (if axis = 2 then f32_neg (spring_field j axis) else spring_field j axis)
                       else f32_zero) [0 ..< 6]"
    using assms unfolding six rep
    by (simp add: set_springs_def enableSpring_def setStiffness_def spring_field_def Let_def)
qed

lemma make_constraint_springs:
  assumes "make_constraint bodies j = Inr c" and "axis < 6"
  shows "m_springEnabled c ! axis = f32_nonzero (spring_field j axis)"
    and "m_springStiffness c ! axis =
           (if f32_nonzero (spring_field j axis)
            then (if axis = 2 then f32_neg (spring_field j axis) else spring_field j axis)
            else f32_zero)"
proof -
  from assms(1) obtain c0 where c: "c = set_springs j c0"
    and c0: "m_springEnabled c0 = replicate 6 False" "m_springStiffness c0 = replicate 6 f32_zero"
    by (auto simp: make_constraint_def Let_def btGeneric6DofSpringConstraint_new_def
        split: if_splits)
  show "m_springEnabled c ! axis = f32_nonzero (spring_field j axis)"
    unfolding c set_springs_fresh(1) [OF c0] using assms(2) by (simp del: upt_Suc)
  show "m_springStiffness c ! axis =
           (if f32_nonzero (spring_field j axis)
            then (if axis = 2 then f32_neg (spring_field j axis) else spring_field j axis)
            else f32_zero)"
    unfolding c set_springs_fresh(2) [OF c0] using assms(2)
    by (auto simp del: upt_Suc simp add: numeral_2_eq_2)
qed

text \<open>
  C7. In a constructed world the constraint of each joint has, on each axis 0..5, its spring
  enabled exactly when the joint's spring field of that axis is nonzero (compares unequal
  to \<open>0.0f\<close>), and then its stiffness is that field, except on axis 2, where it is the
  negation of \<open>position_spring.z\<close>; a field of 0.0 leaves the spring disabled.
\<close>

theorem C7_springs:
  assumes "PhysicsWorld_new scene initial_transform = Inr this"
    and "k < length (GetJoints scene)"
    and "axis < 6"
  shows "k < length (joints this) \<and>
         (m_springEnabled (joints this ! k) ! axis
            \<longleftrightarrow> f32_nonzero (spring_field (GetJoints scene ! k) axis)) \<and>
         (f32_nonzero (spring_field (GetJoints scene ! k) axis) \<longrightarrow>
            m_springStiffness (joints this ! k) ! axis =
              (if axis = 2 then f32_neg (vec_z (position_spring (GetJoints scene ! k)))
               else spring_field (GetJoints scene ! k) axis))"
proof -
  note w = PhysicsWorld_new_Inr [OF assms(1)]
  have c: "make_constraint (rigidbodies this) (GetJoints scene ! k) = Inr (joints this ! k)"
    using w(6) assms(2) by simp
  have z: "spring_field j 2 = vec_z (position_spring j)" for j
    by (simp add: spring_field_def)
  show ?thesis
    using make_constraint_springs [OF c assms(3)] w(5) assms(2) z by auto
qed

theorem C7_springs_witness:
  "\<exists>this. PhysicsWorld_new (example_scene2 SPRING_6DOF) (identity_matrix @ identity_matrix) = Inr this \<and>
     m_springEnabled (joints this ! 0) ! 2 \<and>
     m_springStiffness (joints this ! 0) ! 2 = f32_neg f32_one \<and>
     m_springEnabled (joints this ! 0) ! 0 \<and>
     m_springStiffness (joints this ! 0) ! 0 = f32_one \<and>
     \<not> m_springEnabled (joints this ! 0) ! 1"
proof -
  obtain this where
    w: "PhysicsWorld_new (example_scene2 SPRING_6DOF) (identity_matrix @ identity_matrix) = Inr this"
    using example_scene2_ok by blast
  have k: "0 < length (GetJoints (example_scene2 SPRING_6DOF))"
    by (simp add: example_scene2_def GetJoints_def)
  have f: "spring_field (GetJoints (example_scene2 SPRING_6DOF) ! 0) 0 = f32_one"
    "spring_field (GetJoints (example_scene2 SPRING_6DOF) ! 0) 1 = f32_zero"
    "spring_field (GetJoints (example_scene2 SPRING_6DOF) ! 0) 2 = f32_one"
    "vec_z (position_spring (GetJoints (example_scene2 SPRING_6DOF) ! 0)) = f32_one"
    by (simp_all add: example_scene2_def GetJoints_def example_joint_def spring_field_def)
  have nz: "f32_nonzero f32_one" "\<not> f32_nonzero f32_zero"
    by (simp_all add: f32_nonzero_def f32_one_def f32_zero_def)
  show ?thesis
    using w C7_springs [OF w k, of 0] C7_springs [OF w k, of 1] C7_springs [OF w k, of 2] f nz
    by auto
qed

subsection \<open>The joint type\<close>

lemma make_constraint_joint_type:
  "make_constraint bodies (j \<lparr> joint_type := t \<rparr>) = make_constraint bodies j"
  by (simp add: make_constraint_def set_springs_def Let_def)

lemma add_joints_joint_type:
  "add_joints this (map (\<lambda>j. j \<lparr> joint_type := t j \<rparr>) js) = add_joints this js"
  by (induction js arbitrary: this) (simp_all add: make_constraint_joint_type split: sum.splits)

text \<open>
  C10. World construction never reads the type field of a joint: whatever 32-bit value the
  field holds, the constraint built for the joint is the one built for the same joint with
  type \<open>SPRING_6DOF\<close>, and the whole construction gives what it gives on the scene with
  every joint's type set to \<open>SPRING_6DOF\<close>.
\<close>

theorem C10_joint_type_ignored:
  "make_constraint bodies (j \<lparr> joint_type := t \<rparr>) = make_constraint bodies (j \<lparr> joint_type := SPRING_6DOF \<rparr>) \<and>
   PhysicsWorld_new scene initial_transform =
     PhysicsWorld_new
       (scene \<lparr> scene_joints := map (\<lambda>j. j \<lparr> joint_type := SPRING_6DOF \<rparr>) (scene_joints scene) \<rparr>)
       initial_transform"
  by (simp add: PhysicsWorld_new_def GetJoints_def GetRigidBodies_def add_joints_joint_type
      make_constraint_joint_type Let_def split: sum.splits)

theorem C10_joint_type_ignored_witness:
  "PhysicsWorld_new (example_scene2 0xFFFFFFFF) (identity_matrix @ identity_matrix)
     = PhysicsWorld_new (example_scene2 SPRING_6DOF) (identity_matrix @ identity_matrix) \<and>
   (\<exists>this. PhysicsWorld_new (example_scene2 0xFFFFFFFF) (identity_matrix @ identity_matrix) = Inr this)"
  using C10_joint_type_ignored [where scene = "example_scene2 0xFFFFFFFF"
      and initial_transform = "identity_matrix @ identity_matrix"]
    C10_joint_type_ignored [where scene = "example_scene2 SPRING_6DOF"
      and initial_transform = "identity_matrix @ identity_matrix"]
    example_scene2_ok [of "0xFFFFFFFF"]
  by (simp add: example_scene2_def example_joint_def)

subsection \<open>Joint indices\<close>

text \<open>
  A scene with a joint whose index of body A or of body B is not below the rigid-body count
  never gives a world; the error is the one of "Invalid rigidbody index" exactly when the
  checks that come before the joint loop pass: the buffer has 16 floats per rigid body and
  every rigid body has a known shape type and a known physics mode.
\<close>

lemma PhysicsWorld_new_bad_joint_index:
  assumes "j \<in> set (GetJoints scene)"
    and "length (GetRigidBodies scene) \<le> unat (rigidbody_a_index j) \<or>
         length (GetRigidBodies scene) \<le> unat (rigidbody_b_index j)"
  shows "(\<exists>e w. PhysicsWorld_new scene initial_transform = Inl (e, w)) \<and>
         ((\<exists>w. PhysicsWorld_new scene initial_transform = Inl (InvalidRigidbodyIndex, w)) \<longleftrightarrow>
            length initial_transform = length (GetRigidBodies scene) * 16 \<and>
            (\<forall>item\<in>set (GetRigidBodies scene).
               shape_type item \<in> {SPHERE, BOX, CAPSULE} \<and>
               physics_mode item \<in> {FOLLOW_BONE, PHYSICS, PHYSICS_PLUS_BONE}))"
proof -
  let ?w0 = "\<lparr> world = [setGravity, addRigidBody ground_rigidbody, setOverlapFilterCallback],
               rigidbodies = [], joints = [], transform_buffer = initial_transform \<rparr>"
  let ?valid = "\<forall>item\<in>set (GetRigidBodies scene).
               shape_type item \<in> {SPHERE, BOX, CAPSULE} \<and>
               physics_mode item \<in> {FOLLOW_BONE, PHYSICS, PHYSICS_PLUS_BONE}"
  show ?thesis
  proof (cases "length initial_transform = length (GetRigidBodies scene) * 16")
    case False
    then show ?thesis
      by (simp add: PhysicsWorld_new_def Let_def)
  next
    case len: True
    show ?thesis
    proof (cases "add_rigidbodies ?w0 0 (GetRigidBodies scene)")
      case (Inl failure)
      obtain e w where f: "failure = (e, w)"
        by (cases failure)
      have "\<not> ?valid"
        using add_rigidbodies_ok [of "GetRigidBodies scene" ?w0 0] Inl by auto
      moreover have "e \<noteq> InvalidRigidbodyIndex"
        using add_rigidbodies_Inl [of ?w0 0 "GetRigidBodies scene" e w] Inl f by auto
      ultimately show ?thesis
        using Inl len f by (simp add: PhysicsWorld_new_def Let_def)
    next
      case (Inr w1)
      from add_rigidbodies_Inr [OF Inr] have n: "length (rigidbodies w1) = length (GetRigidBodies scene)"
        and ok: "\<forall>k<length (GetRigidBodies scene). \<exists>d.
                   make_rigidbody initial_transform k (GetRigidBodies scene ! k) = Inr d"
        by auto
      have "?valid"
      proof
        fix item assume "item \<in> set (GetRigidBodies scene)"
        then obtain k where "k < length (GetRigidBodies scene)" "GetRigidBodies scene ! k = item"
          by (auto simp: in_set_conv_nth)
        then show "shape_type item \<in> {SPHERE, BOX, CAPSULE} \<and>
               physics_mode item \<in> {FOLLOW_BONE, PHYSICS, PHYSICS_PLUS_BONE}"
          using ok make_rigidbody_ok_iff [of initial_transform k item] by blast
      qed
      moreover have "\<exists>w. add_joints w1 (GetJoints scene) = Inl (InvalidRigidbodyIndex, w)"
        using add_joints_bad_index [OF assms(1), of w1] assms(2) n by simp
      ultimately show ?thesis
        using Inr len by (auto simp add: PhysicsWorld_new_def Let_def)
    qed
  qed
qed

subsection \<open>Teardown\<close>

lemma remove_joints_eq:
  "remove_joints calls i js = calls @ map removeConstraint [i ..< i + length js]"
proof (induction js arbitrary: calls i)
  case Nil
  then show ?case by simp
next
  case (Cons j js)
  have "[i ..< i + length (j # js)] = i # [i + 1 ..< i + 1 + length js]"
    by (simp add: upt_conv_Cons del: upt_Suc)
  then show ?case
    using Cons.IH [of "calls @ [removeConstraint i]" "i + 1"] by simp
qed

lemma remove_rigidbodies_eq:
  "remove_rigidbodies calls i bs =
     calls @ map (\<lambda>k. removeRigidBody (scene_rigidbody k)) [i ..< i + length bs]"
proof (induction bs arbitrary: calls i)
  case Nil
  then show ?case by simp
next
  case (Cons b bs)
  have "[i ..< i + length (b # bs)] = i # [i + 1 ..< i + 1 + length bs]"
    by (simp add: upt_conv_Cons del: upt_Suc)
  then show ?case
    using Cons.IH [of "calls @ [removeRigidBody (scene_rigidbody i)]" "i + 1"] by simp
qed

lemma all_before_append:
  "all_before P Q (xs @ ys) \<longleftrightarrow>
     all_before P Q xs \<and> all_before P Q ys \<and> (list_ex Q xs \<longrightarrow> \<not> list_ex P ys)"
  by (induction xs) (auto simp: list_ex_iff)

lemma all_before_no_P: "\<not> list_ex P xs \<Longrightarrow> all_before P Q xs"
  by (induction xs) (auto simp: list_ex_iff)

lemma all_before_no_Q: "\<not> list_ex Q xs \<Longrightarrow> all_before P Q xs"
  by (induction xs) (auto simp: list_ex_iff)

text \<open>
  C6 as stated fails: on the world of two bodies and one joint the destructor removes the
  ground first, so a rigid body (the ground) is removed before the constraint, and the
  ground is removed before the two bodies of the scene, not after them.
\<close>

theorem C6_counterexample:
  "\<not> isl (PhysicsWorld_new (example_scene2 SPRING_6DOF) (identity_matrix @ identity_matrix)) \<and>
   PhysicsWorld_destroy
       (projr (PhysicsWorld_new (example_scene2 SPRING_6DOF) (identity_matrix @ identity_matrix)))
     = [removeRigidBody ground_rigidbody, removeConstraint 0,
        removeRigidBody (scene_rigidbody 0), removeRigidBody (scene_rigidbody 1)] \<and>
   \<not> all_before is_removeConstraint is_removeRigidBody
       (PhysicsWorld_destroy
         (projr (PhysicsWorld_new (example_scene2 SPRING_6DOF) (identity_matrix @ identity_matrix)))) \<and>
   \<not> all_before removes_scene_rigidbody removes_ground
       (PhysicsWorld_destroy
         (projr (PhysicsWorld_new (example_scene2 SPRING_6DOF) (identity_matrix @ identity_matrix))))"
proof -
  obtain this where
    w: "PhysicsWorld_new (example_scene2 SPRING_6DOF) (identity_matrix @ identity_matrix) = Inr this"
    using example_scene2_ok by blast
  have "length (joints this) = 1" "length (rigidbodies this) = 2"
    using PhysicsWorld_new_Inr(3,5) [OF w]
    by (simp_all add: example_scene2_def GetJoints_def GetRigidBodies_def)
  then have "PhysicsWorld_destroy this
     = [removeRigidBody ground_rigidbody, removeConstraint 0,
        removeRigidBody (scene_rigidbody 0), removeRigidBody (scene_rigidbody 1)]"
    by (simp add: PhysicsWorld_destroy_def remove_joints_eq remove_rigidbodies_eq upt_rec)
  then show ?thesis
    using w by simp
qed

text \<open>
  C6, amended. The destructor removes the ground's rigid body first, then every constraint
  in order, then every rigid body of the scene in order: every constraint is removed before
  any rigid body of the scene, and the ground before every constraint and every rigid body
  of the scene.
\<close>

theorem C6_teardown_order:
  "PhysicsWorld_destroy this =
     [removeRigidBody ground_rigidbody]
       @ map removeConstraint [0 ..< length (joints this)]
       @ map (\<lambda>k. removeRigidBody (scene_rigidbody k)) [0 ..< length (rigidbodies this)] \<and>
   all_before is_removeConstraint removes_scene_rigidbody (PhysicsWorld_destroy this) \<and>
   all_before removes_ground is_removeConstraint (PhysicsWorld_destroy this) \<and>
   all_before removes_ground removes_scene_rigidbody (PhysicsWorld_destroy this)"
proof -
  let ?js = "map removeConstraint [0 ..< length (joints this)]"
  let ?bs = "map (\<lambda>k. removeRigidBody (scene_rigidbody k)) [0 ..< length (rigidbodies this)]"
  have eq: "PhysicsWorld_destroy this = [removeRigidBody ground_rigidbody] @ ?js @ ?bs"
    by (simp add: PhysicsWorld_destroy_def remove_joints_eq remove_rigidbodies_eq)
  have js: "\<not> list_ex removes_scene_rigidbody ?js" "\<not> list_ex removes_ground ?js"
    "\<not> list_ex is_removeRigidBody ?js"
    by (simp_all add: list_ex_iff)
  have bs: "\<not> list_ex is_removeConstraint ?bs" "\<not> list_ex removes_ground ?bs"
    by (simp_all add: list_ex_iff)
  have "all_before is_removeConstraint removes_scene_rigidbody ([removeRigidBody ground_rigidbody] @ ?js @ ?bs)"
    using js bs by (simp add: all_before_append all_before_no_P all_before_no_Q del: append.simps)
  moreover have "all_before removes_ground is_removeConstraint ([removeRigidBody ground_rigidbody] @ ?js @ ?bs)"
    using js bs by (simp add: all_before_append all_before_no_P all_before_no_Q del: append.simps)
  moreover have "all_before removes_ground removes_scene_rigidbody ([removeRigidBody ground_rigidbody] @ ?js @ ?bs)"
    using js bs by (simp add: all_before_append all_before_no_P all_before_no_Q del: append.simps)
  ultimately show ?thesis
    using eq by simp
qed

theorem C6_teardown_order_witness:
  "\<exists>this. PhysicsWorld_new (example_scene2 SPRING_6DOF) (identity_matrix @ identity_matrix) = Inr this \<and>
     PhysicsWorld_destroy this
       = [removeRigidBody ground_rigidbody, removeConstraint 0,
          removeRigidBody (scene_rigidbody 0), removeRigidBody (scene_rigidbody 1)] \<and>
     all_before is_removeConstraint removes_scene_rigidbody (PhysicsWorld_destroy this)"
proof -
  obtain this where
    w: "PhysicsWorld_new (example_scene2 SPRING_6DOF) (identity_matrix @ identity_matrix) = Inr this"
    using example_scene2_ok by blast
  have "length (joints this) = 1" "length (rigidbodies this) = 2"
    using PhysicsWorld_new_Inr(3,5) [OF w]
    by (simp_all add: example_scene2_def GetJoints_def GetRigidBodies_def)
  then show ?thesis
    using w C6_teardown_order [of this] by (simp add: upt_rec)
qed

subsection \<open>What construction leaves in the simulation\<close>

lemma add_rigidbodies_world:
  assumes "add_rigidbodies this n items = Inl (e, w) \<or> add_rigidbodies this n items = Inr w"
  shows "\<exists>m. m \<le> length items \<and>
           world w = world this @ map (\<lambda>k. addRigidBody (scene_rigidbody k))
                                    [length (rigidbodies this) ..< length (rigidbodies this) + m] \<and>
           length (rigidbodies w) = length (rigidbodies this) + m \<and>
           joints w = joints this \<and>
           (add_rigidbodies this n items = Inr w \<longrightarrow> m = length items)"
  using assms
proof (induction items arbitrary: this n)
  case Nil
  then show ?case by auto
next
  case (Cons item items)
  show ?case
  proof (cases "make_rigidbody (transform_buffer this) n item")
    case (Inl e')
    then have "w = this" and "add_rigidbodies this n (item # items) \<noteq> Inr w"
      using Cons.prems by auto
    then show ?thesis
      by (intro exI [of _ 0]) simp
  next
    case (Inr d)
    let ?t = "this \<lparr> world := world this @ [addRigidBody (scene_rigidbody (length (rigidbodies this)))],
                    rigidbodies := rigidbodies this @ [d] \<rparr>"
    have step: "add_rigidbodies this n (item # items) = add_rigidbodies ?t (n + 1) items"
      using Inr by simp
    from Cons.prems have "add_rigidbodies ?t (n + 1) items = Inl (e, w) \<or>
        add_rigidbodies ?t (n + 1) items = Inr w"
      unfolding step .
    from Cons.IH [OF this] obtain m where m: "m \<le> length items"
      "world w = world ?t @ map (\<lambda>k. addRigidBody (scene_rigidbody k))
                                    [length (rigidbodies ?t) ..< length (rigidbodies ?t) + m]"
      "length (rigidbodies w) = length (rigidbodies ?t) + m" "joints w = joints ?t"
      "add_rigidbodies ?t (n + 1) items = Inr w \<longrightarrow> m = length items"
      by blast
    have "[length (rigidbodies this) ..< length (rigidbodies this) + Suc m]
            = length (rigidbodies this) # [Suc (length (rigidbodies this)) ..< Suc (length (rigidbodies this)) + m]"
      by (simp add: upt_conv_Cons del: upt_Suc)
    then show ?thesis
      using m unfolding step by (intro exI [of _ "Suc m"]) simp
  qed
qed

lemma add_joints_world:
  assumes "add_joints this js = Inl (e, w) \<or> add_joints this js = Inr w"
  shows "\<exists>m. m \<le> length js \<and>
           world w = world this @ map (\<lambda>k. addConstraint k True)
                                    [length (joints this) ..< length (joints this) + m] \<and>
           length (joints w) = length (joints this) + m \<and>
           rigidbodies w = rigidbodies this \<and>
           (add_joints this js = Inr w \<longrightarrow> m = length js)"
  using assms
proof (induction js arbitrary: this)
  case Nil
  then show ?case by auto
next
  case (Cons j js)
  show ?case
  proof (cases "make_constraint (rigidbodies this) j")
    case (Inl e')
    then have "w = this" and "add_joints this (j # js) \<noteq> Inr w"
      using Cons.prems by auto
    then show ?thesis
      by (intro exI [of _ 0]) simp
  next
    case (Inr c)
    let ?t = "this \<lparr> world := world this @ [addConstraint (length (joints this)) True],
                    joints := joints this @ [c] \<rparr>"
    have step: "add_joints this (j # js) = add_joints ?t js"
      using Inr by simp
    from Cons.prems have "add_joints ?t js = Inl (e, w) \<or> add_joints ?t js = Inr w"
      unfolding step .
    from Cons.IH [OF this] obtain m where m: "m \<le> length js"
      "world w = world ?t @ map (\<lambda>k. addConstraint k True)
                                    [length (joints ?t) ..< length (joints ?t) + m]"
      "length (joints w) = length (joints ?t) + m" "rigidbodies w = rigidbodies ?t"
      "add_joints ?t js = Inr w \<longrightarrow> m = length js"
      by blast
    have "[length (joints this) ..< length (joints this) + Suc m]
            = length (joints this) # [Suc (length (joints this)) ..< Suc (length (joints this)) + m]"
      by (simp add: upt_conv_Cons del: upt_Suc)
    then show ?thesis
      using m unfolding step by (intro exI [of _ "Suc m"]) simp
  qed
qed

text \<open>
  The calls of a construction, finished or failed: the ground, then the first \<open>n\<close> rigid
  bodies, then the first \<open>m\<close> constraints, and no removal.
\<close>

lemma PhysicsWorld_new_world:
  assumes "PhysicsWorld_new scene initial_transform = Inl (e, w) \<or>
           PhysicsWorld_new scene initial_transform = Inr w"
  shows "world w = [setGravity, addRigidBody ground_rigidbody, setOverlapFilterCallback]
           @ map (\<lambda>k. addRigidBody (scene_rigidbody k)) [0 ..< length (rigidbodies w)]
           @ map (\<lambda>k. addConstraint k True) [0 ..< length (joints w)]"
proof -
  let ?w0 = "\<lparr> world = [setGravity, addRigidBody ground_rigidbody, setOverlapFilterCallback],
               rigidbodies = [], joints = [], transform_buffer = initial_transform \<rparr>"
  show ?thesis
  proof (cases "length initial_transform = length (GetRigidBodies scene) * 16")
    case False
    then have "w = ?w0"
      using assms by (auto simp: PhysicsWorld_new_def Let_def)
    then show ?thesis by simp
  next
    case len: True
    show ?thesis
    proof (cases "add_rigidbodies ?w0 0 (GetRigidBodies scene)")
      case (Inl failure)
      then have f: "add_rigidbodies ?w0 0 (GetRigidBodies scene) = Inl (e, w)"
        using assms len by (auto simp: PhysicsWorld_new_def Let_def)
      from add_rigidbodies_world [of ?w0 0 "GetRigidBodies scene" e w] f
      show ?thesis by auto
    next
      case (Inr w1)
      from add_rigidbodies_world [of ?w0 0 "GetRigidBodies scene" e w1] Inr
      have w1: "world w1 = [setGravity, addRigidBody ground_rigidbody, setOverlapFilterCallback]
           @ map (\<lambda>k. addRigidBody (scene_rigidbody k)) [0 ..< length (rigidbodies w1)]"
        "joints w1 = []"
        by auto
      have "add_joints w1 (GetJoints scene) = Inl (e, w) \<or> add_joints w1 (GetJoints scene) = Inr w"
        using assms len Inr by (auto simp: PhysicsWorld_new_def Let_def)
      from add_joints_world [OF this] w1 show ?thesis
        by auto
    qed
  qed
qed

lemma foldl_bodies_after_add:
  "foldl bodies_after bs (map (\<lambda>k. addRigidBody (f k)) ks) = bs @ map f ks"
  by (induction ks arbitrary: bs) simp_all

lemma foldl_bodies_after_addConstraint:
  "foldl bodies_after bs (map (\<lambda>k. addConstraint k b) ks) = bs"
  by (induction ks arbitrary: bs) simp_all

lemma foldl_constraints_after_add:
  "foldl constraints_after cs (map (\<lambda>k. addConstraint k b) ks) = cs @ ks"
  by (induction ks arbitrary: cs) simp_all

lemma foldl_constraints_after_addRigidBody:
  "foldl constraints_after cs (map (\<lambda>k. addRigidBody (f k)) ks) = cs"
  by (induction ks arbitrary: cs) simp_all

text \<open>
  Whenever the constructor throws, the ground, every rigid body pushed so far and every
  constraint pushed so far are still added to the simulation.
\<close>

lemma PhysicsWorld_new_Inl_simulation:
  assumes "PhysicsWorld_new scene initial_transform = Inl (e, w)"
  shows "bodies_in_simulation (world w)
           = ground_rigidbody # map scene_rigidbody [0 ..< length (rigidbodies w)]"
    and "constraints_in_simulation (world w) = [0 ..< length (joints w)]"
  using PhysicsWorld_new_world [of scene initial_transform e w] assms
  by (simp_all add: bodies_in_simulation_def constraints_in_simulation_def
      foldl_bodies_after_add foldl_bodies_after_addConstraint foldl_constraints_after_add
      foldl_constraints_after_addRigidBody)

lemma example_failure_state:
  "\<exists>w. PhysicsWorld_new example_scene_bad_second_joint (identity_matrix @ identity_matrix)
          = Inl (InvalidRigidbodyIndex, w) \<and>
       length (rigidbodies w) = 2 \<and> length (joints w) = 1"
  by (simp add: PhysicsWorld_new_def example_scene_bad_second_joint_def GetRigidBodies_def
      GetJoints_def identity_matrix_def Let_def example_body_def example_joint_def
      make_rigidbody_def make_shape_def make_motion_state_def make_constraint_def
      SPHERE_def BOX_def CAPSULE_def FOLLOW_BONE_def PHYSICS_def PHYSICS_PLUS_BONE_def)

lemma foldl_bodies_after_removeConstraint:
  "foldl bodies_after bs (map removeConstraint ks) = bs"
  by (induction ks arbitrary: bs) simp_all

lemma foldl_constraints_after_removeRigidBody:
  "foldl constraints_after cs (map (\<lambda>k. removeRigidBody (f k)) ks) = cs"
  by (induction ks arbitrary: cs) simp_all

lemma foldl_bodies_after_remove:
  "distinct ks \<Longrightarrow> inj f \<Longrightarrow>
   foldl bodies_after (map f ks) (map (\<lambda>k. removeRigidBody (f k)) ks) = []"
proof (induction ks)
  case Nil
  then show ?case by simp
next
  case (Cons k ks)
  then have "f k \<notin> set (map f ks)"
    by (auto dest: injD)
  then have "removeAll (f k) (map f ks) = map f ks"
    by (rule removeAll_id)
  then show ?case
    using Cons by simp
qed

lemma foldl_constraints_after_remove:
  "distinct ks \<Longrightarrow> foldl constraints_after ks (map removeConstraint ks) = []"
proof (induction ks)
  case Nil
  then show ?case by simp
next
  case (Cons k ks)
  then have "removeAll k ks = ks"
    by (simp add: removeAll_id)
  then show ?case
    using Cons by simp
qed

text \<open>
  The destructor, by contrast, leaves nothing in the simulation of a constructed world.
\<close>

lemma PhysicsWorld_destroy_simulation:
  assumes "PhysicsWorld_new scene initial_transform = Inr this"
  shows "bodies_in_simulation (world this @ PhysicsWorld_destroy this) = []"
    and "constraints_in_simulation (world this @ PhysicsWorld_destroy this) = []"
proof -
  have inj: "inj scene_rigidbody"
    by (simp add: inj_def)
  have w: "world this = [setGravity, addRigidBody ground_rigidbody, setOverlapFilterCallback]
           @ map (\<lambda>k. addRigidBody (scene_rigidbody k)) [0 ..< length (rigidbodies this)]
           @ map (\<lambda>k. addConstraint k True) [0 ..< length (joints this)]"
    using PhysicsWorld_new_world [of scene initial_transform undefined this] assms by simp
  have d: "PhysicsWorld_destroy this = [removeRigidBody ground_rigidbody]
       @ map removeConstraint [0 ..< length (joints this)]
       @ map (\<lambda>k. removeRigidBody (scene_rigidbody k)) [0 ..< length (rigidbodies this)]"
    by (simp add: PhysicsWorld_destroy_def remove_joints_eq remove_rigidbodies_eq)
  have g: "removeAll ground_rigidbody (map scene_rigidbody ks) = map scene_rigidbody ks" for ks
    by (rule removeAll_id) auto
  show "bodies_in_simulation (world this @ PhysicsWorld_destroy this) = []"
    unfolding w d bodies_in_simulation_def
    by (simp add: foldl_bodies_after_add foldl_bodies_after_addConstraint
        foldl_bodies_after_removeConstraint g foldl_bodies_after_remove [OF _ inj])
  show "constraints_in_simulation (world this @ PhysicsWorld_destroy this) = []"
    unfolding w d constraints_in_simulation_def
    by (simp add: foldl_constraints_after_add foldl_constraints_after_addRigidBody
        foldl_constraints_after_removeRigidBody foldl_constraints_after_remove)
qed

text \<open>
  C8 asks that a scene with a joint index out of range make construction fail with the
  error of "Invalid rigidbody index" and leave no body or constraint added to the
  simulation. On the scene of two spheres whose second joint names rigid body 5, the
  constructor does fail with that error, and at the \<open>throw\<close> the simulation has received
  \<open>addRigidBody\<close> for the ground and for both bodies and \<open>addConstraint\<close> for the first
  joint, and no removal: the three bodies and the constraint are still added to it. Only
  the destructor removes them, and it does not run here.
\<close>

theorem C8_failed_construction_leaves_bodies:
  "isl (PhysicsWorld_new example_scene_bad_second_joint (identity_matrix @ identity_matrix)) \<and>
   fst (projl (PhysicsWorld_new example_scene_bad_second_joint (identity_matrix @ identity_matrix)))
     = InvalidRigidbodyIndex \<and>
   world (snd (projl
       (PhysicsWorld_new example_scene_bad_second_joint (identity_matrix @ identity_matrix))))
     = [setGravity, addRigidBody ground_rigidbody, setOverlapFilterCallback,
        addRigidBody (scene_rigidbody 0), addRigidBody (scene_rigidbody 1), addConstraint 0 True] \<and>
   bodies_in_simulation (world (snd (projl
       (PhysicsWorld_new example_scene_bad_second_joint (identity_matrix @ identity_matrix)))))
     = [ground_rigidbody, scene_rigidbody 0, scene_rigidbody 1] \<and>
   constraints_in_simulation (world (snd (projl
       (PhysicsWorld_new example_scene_bad_second_joint (identity_matrix @ identity_matrix)))))
     = [0]"
proof -
  obtain w where w: "PhysicsWorld_new example_scene_bad_second_joint (identity_matrix @ identity_matrix)
          = Inl (InvalidRigidbodyIndex, w)"
    and n: "length (rigidbodies w) = 2" "length (joints w) = 1"
    using example_failure_state by blast
  have "world w = [setGravity, addRigidBody ground_rigidbody, setOverlapFilterCallback,
        addRigidBody (scene_rigidbody 0), addRigidBody (scene_rigidbody 1), addConstraint 0 True]"
    using PhysicsWorld_new_world [of example_scene_bad_second_joint
        "identity_matrix @ identity_matrix" InvalidRigidbodyIndex w] w n
    by (simp add: upt_rec)
  then show ?thesis
    using w by (simp add: bodies_in_simulation_def constraints_in_simulation_def)
qed

subsection \<open>The collision filter\<close>

text \<open>
  C5. For every two proxies the filter answers true exactly when one of them is the ground's
  proxy or both (group of proxy0 AND mask of proxy1) and (mask of proxy0 AND group of
  proxy1) are nonzero; so two proxies, neither the ground's, whose group and mask are
  disjoint in either direction do not pass, and every proxy passes with the ground's.
\<close>

theorem C5_collision_filter:
  "(needBroadphaseCollision this proxies proxy0 proxy1 \<longleftrightarrow>
      proxy0 = ground_proxy this \<or> proxy1 = ground_proxy this \<or>
      (m_collisionFilterGroup (proxies proxy0) AND m_collisionFilterMask (proxies proxy1) \<noteq> 0 \<and>
       m_collisionFilterMask (proxies proxy0) AND m_collisionFilterGroup (proxies proxy1) \<noteq> 0)) \<and>
   (proxy0 \<noteq> ground_proxy this \<and> proxy1 \<noteq> ground_proxy this \<and>
    (m_collisionFilterGroup (proxies proxy0) AND m_collisionFilterMask (proxies proxy1) = 0 \<or>
     m_collisionFilterMask (proxies proxy0) AND m_collisionFilterGroup (proxies proxy1) = 0)
      \<longrightarrow> \<not> needBroadphaseCollision this proxies proxy0 proxy1) \<and>
   needBroadphaseCollision this proxies proxy0 (ground_proxy this) \<and>
   needBroadphaseCollision this proxies (ground_proxy this) proxy1"
  by (auto simp: needBroadphaseCollision_def Let_def)

theorem C5_collision_filter_witness:
  "\<not> needBroadphaseCollision \<lparr> ground_proxy = 0 \<rparr> example_proxies 1 2 \<and>
   needBroadphaseCollision \<lparr> ground_proxy = 0 \<rparr> example_proxies 1 3 \<and>
   needBroadphaseCollision \<lparr> ground_proxy = 0 \<rparr> example_proxies 1 0 \<and>
   needBroadphaseCollision \<lparr> ground_proxy = 0 \<rparr> example_proxies 0 2"
  using C5_collision_filter [of "\<lparr> ground_proxy = 0 \<rparr>" example_proxies 1 2]
    C5_collision_filter [of "\<lparr> ground_proxy = 0 \<rparr>" example_proxies 1 3]
  by (simp add: example_proxies_def)

subsection \<open>Mass and inertia\<close>

text \<open>
  In every constructed world the engine body of each rigid body is built with the decoded
  mass, whatever the mode, while its local inertia follows the effective mass (0 for
  FollowBone): it is computed from the shape exactly when the effective mass is nonzero.
\<close>

lemma PhysicsWorld_new_mass:
  assumes "PhysicsWorld_new scene initial_transform = Inr this"
    and "i < length (GetRigidBodies scene)"
  shows "m_mass (construction_info (rigidbody (rigidbodies this ! i))) = mass (GetRigidBodies scene ! i)"
    and "m_localInertia (construction_info (rigidbody (rigidbodies this ! i))) =
           (if physics_mode (GetRigidBodies scene ! i) \<noteq> FOLLOW_BONE \<and>
               f32_nonzero (mass (GetRigidBodies scene ! i))
            then calculateLocalInertia (shape (rigidbodies this ! i)) (mass (GetRigidBodies scene ! i))
            else zero_inertia)"
  using PhysicsWorld_new_Inr(4) [OF assms(1)] assms(2) make_rigidbody_mass by blast+

text \<open>
  C1 asks that the engine body of a FollowBone rigid body have mass 0 whatever mass was
  decoded. On the scene of one FollowBone sphere of decoded mass \<open>1.0f\<close> the constructor
  succeeds and the engine body is constructed with mass \<open>1.0f\<close>, which is not zero, and
  with the zero local inertia: the effective mass (0) is used for the inertia only, and
  \<open>rigidbody_item.mass\<close> is what the construction info receives.
\<close>

theorem C1_follow_bone_mass_not_zero:
  "physics_mode (GetRigidBodies (example_scene FOLLOW_BONE) ! 0) = FOLLOW_BONE \<and>
   \<not> isl (PhysicsWorld_new (example_scene FOLLOW_BONE) identity_matrix) \<and>
   m_mass (construction_info (rigidbody (rigidbodies
       (projr (PhysicsWorld_new (example_scene FOLLOW_BONE) identity_matrix)) ! 0))) = f32_one \<and>
   f32_nonzero f32_one \<and>
   m_localInertia (construction_info (rigidbody (rigidbodies
       (projr (PhysicsWorld_new (example_scene FOLLOW_BONE) identity_matrix)) ! 0))) = zero_inertia"
proof -
  obtain this where w: "PhysicsWorld_new (example_scene FOLLOW_BONE) identity_matrix = Inr this"
    using example_scene_ok [of FOLLOW_BONE] by auto
  have i: "0 < length (GetRigidBodies (example_scene FOLLOW_BONE))"
    by (simp add: example_scene_def GetRigidBodies_def)
  have b: "physics_mode (GetRigidBodies (example_scene FOLLOW_BONE) ! 0) = FOLLOW_BONE"
    "mass (GetRigidBodies (example_scene FOLLOW_BONE) ! 0) = f32_one"
    by (simp_all add: example_scene_def GetRigidBodies_def example_body_def)
  have "f32_nonzero f32_one"
    by (simp add: f32_nonzero_def f32_one_def)
  then show ?thesis
    using w PhysicsWorld_new_mass [OF w i] b by simp
qed

end
